theory Spec2Isabelle
  imports Main "HOL-Library.Word"
begin

section \<open>The timesheet generator \<open>zohono\<close>\<close>

text \<open>
  A shallow embedding of \<^verbatim>\<open>src/zohono/main.go\<close>. The program reads four flags, resolves a
  date range (\<^verbatim>\<open>parseFlags\<close>), builds one record per working day (\<^verbatim>\<open>buildLog\<close>) and
  writes the records as CSV (\<^verbatim>\<open>writeCSV\<close>).

  The program is written against Go's standard library. The parts of the packages
  \<^verbatim>\<open>time\<close>, \<^verbatim>\<open>strconv\<close>, \<^verbatim>\<open>fmt\<close> and \<^verbatim>\<open>encoding/csv\<close> that it calls are modelled
  first, from their documented behaviour:
  \<^item> the calendar is the proleptic Gregorian calendar over unbounded integers (the 64-bit
    limits of Go's internal second count are not modelled);
  \<^item> a \<^verbatim>\<open>*time.Location\<close> is a fixed offset from UTC in seconds, so \<^verbatim>\<open>time.Local\<close> is a
    parameter of the environment and has no daylight-saving transitions;
  \<^item> a \<^verbatim>\<open>time.Time\<close> is an instant (Unix seconds and nanoseconds) together with its
    location; the monotonic clock reading is not modelled;
  \<^item> a layout string is given by its list of chunks, the way \<^verbatim>\<open>nextStdChunk\<close> cuts it.
  Go's \<^verbatim>\<open>int\<close> is taken as 64 bits wide.

  The first two points are limits of the model, and they bound what is proved.
  \<^item> In a zone with transitions \<^verbatim>\<open>time.Date\<close> looks up the offset of the wall-clock
    time it is given, and when a daylight-saving change has removed that time it returns
    another: asked for a midnight that does not exist, it answers 23:00 of the day
    before. The model has no such zone. That \<^verbatim>\<open>parseFlags\<close> returns midnights, and
    which days the loop of \<^verbatim>\<open>buildLog\<close> visits between two of them, is therefore
    proved for zones of fixed offset only, as lemmas (section \<open>The resolved range\<close>) and
    not as claims: in a zone with a transition the program does not meet C1 and C6, and
    the sections on these two say what it does there.
  \<^item> \<^verbatim>\<open>time.Date\<close> counts seconds in 64 bits from an epoch some \<open>2.9 * 10 ^ 11\<close> years
    back, and the count wraps for dates about as far ahead. This needs an hour argument
    of about \<open>2.56 * 10 ^ 15\<close>; the one statement that gives the clock value of
    \<open>8 + hours\<close> for hours other than 8 (C7) is made for sums below 8760000.
\<close>

subsection \<open>Package time: calendar arithmetic\<close>

type_synonym Location = int
type_synonym Month = int
type_synonym Weekday = int

record Time =
  unix :: int
  nsec :: nat
  loc :: Location

definition UTC :: Location where "UTC = 0"

definition Sunday :: Weekday where "Sunday = 0"
definition Monday :: Weekday where "Monday = 1"
definition Friday :: Weekday where "Friday = 5"
definition Saturday :: Weekday where "Saturday = 6"

definition January :: Month where "January = 1"
definition February :: Month where "February = 2"
definition March :: Month where "March = 3"

definition secondsPerDay :: int where "secondsPerDay = 86400"

text \<open>Seconds from 0001-01-01 00:00:00 UTC to the Unix epoch. Go counts absolute time
  from a year that is congruent to 1 modulo 400; with unbounded integers and flooring
  division year 1 serves the same purpose.\<close>

definition unixToAbsolute :: int where "unixToAbsolute = 62135596800"

text \<open>\<^verbatim>\<open>norm\<close> returns \<open>nhi, nlo\<close> with \<open>hi * base + lo = nhi * base + nlo\<close> and
  \<open>0 \<le> nlo < base\<close>. Both divisions have non-negative operands, where Go's truncating
  division agrees with \<open>div\<close>.\<close>

definition norm :: "int \<Rightarrow> int \<Rightarrow> int \<Rightarrow> int \<times> int" where
  "norm hi lo base =
     (let (hi, lo) = (if lo < 0
                      then (let n = (- lo - 1) div base + 1 in (hi - n, lo + n * base))
                      else (hi, lo))
      in (if lo \<ge> base
          then (let n = lo div base in (hi + n, lo - n * base))
          else (hi, lo)))"

definition isLeap :: "int \<Rightarrow> bool" where
  "isLeap year = (year mod 4 = 0 \<and> (year mod 100 \<noteq> 0 \<or> year mod 400 = 0))"

definition daysBefore :: "int \<Rightarrow> int" where
  "daysBefore i = [0, 31, 59, 90, 120, 151, 181, 212, 243, 273, 304, 334, 365] ! nat i"

definition daysIn :: "Month \<Rightarrow> int \<Rightarrow> int" where
  "daysIn m year =
     (if m = February \<and> isLeap year then 29 else daysBefore m - daysBefore (m - 1))"

definition daysSinceEpoch :: "int \<Rightarrow> int" where
  "daysSinceEpoch year =
     (let y = year - 1;
          n = y div 400;
          y = y - 400 * n;
          d = 146097 * n;
          n = y div 100;
          y = y - 100 * n;
          d = d + 36524 * n;
          n = y div 4;
          y = y - 4 * n;
          d = d + 1461 * n;
          n = y;
          d = d + 365 * n
      in d)"

text \<open>\<^verbatim>\<open>time.Date\<close>: any of the fields may be out of range and is normalised.\<close>

definition Date ::
  "int \<Rightarrow> Month \<Rightarrow> int \<Rightarrow> int \<Rightarrow> int \<Rightarrow> int \<Rightarrow> int \<Rightarrow> Location \<Rightarrow> Time" where
  "Date year month day hour mi sec ns l =
     (let m = month - 1;
          (year, m) = norm year m 12;
          month = m + 1;
          (sec, ns) = norm sec ns 1000000000;
          (mi, sec) = norm mi sec 60;
          (hour, mi) = norm hour mi 60;
          (day, hour) = norm day hour 24;
          d = daysSinceEpoch year;
          d = d + daysBefore (month - 1);
          d = (if isLeap year \<and> month \<ge> March then d + 1 else d);
          d = d + (day - 1);
          abs = d * secondsPerDay + (hour * 3600 + mi * 60 + sec);
          u = abs - unixToAbsolute
      in \<lparr> unix = u - l, nsec = nat ns, loc = l \<rparr>)"

text \<open>The seconds since 0001-01-01 00:00:00 on the clock of the time's own location.\<close>

definition abs_sec :: "Time \<Rightarrow> int" where
  "abs_sec t = unix t + loc t + unixToAbsolute"

text \<open>\<^verbatim>\<open>absDate\<close>: the year and the day of the year first (400-, 100-, 4- and 1-year
  cycles), then month and day of the month.\<close>

definition absYear :: "int \<Rightarrow> int \<times> int" where
  "absYear a =
     (let d = a div secondsPerDay;
          n = d div 146097;
          y = 400 * n;
          d = d - 146097 * n;
          n = d div 36524;
          n = n - n div 4;
          y = y + 100 * n;
          d = d - 36524 * n;
          n = d div 1461;
          y = y + 4 * n;
          d = d - 1461 * n;
          n = d div 365;
          n = n - n div 4;
          y = y + n;
          d = d - 365 * n
      in (y + 1, d))"

definition absDate :: "int \<Rightarrow> int \<times> Month \<times> int \<times> int" where
  "absDate a =
     (let (year, yday) = absYear a;
          day = yday
      in (if isLeap year \<and> day = 31 + 29 - 1 then (year, February, 29, yday)
          else (let day = (if isLeap year \<and> day > 31 + 29 - 1 then day - 1 else day);
                    month = day div 31;
                    end = daysBefore (month + 1);
                    (month, begin) = (if day \<ge> end then (month + 1, end)
                                      else (month, daysBefore month));
                    month = month + 1;
                    day = day - begin + 1
                in (year, month, day, yday))))"

definition Year :: "Time \<Rightarrow> int" where
  "Year t = (case absDate (abs_sec t) of (y, m, d, yd) \<Rightarrow> y)"

definition Month :: "Time \<Rightarrow> Month" where
  "Month t = (case absDate (abs_sec t) of (y, m, d, yd) \<Rightarrow> m)"

definition Day :: "Time \<Rightarrow> int" where
  "Day t = (case absDate (abs_sec t) of (y, m, d, yd) \<Rightarrow> d)"

definition Hour :: "Time \<Rightarrow> int" where
  "Hour t = (abs_sec t mod secondsPerDay) div 3600"

definition Minute :: "Time \<Rightarrow> int" where
  "Minute t = (abs_sec t mod 3600) div 60"

definition Second :: "Time \<Rightarrow> int" where
  "Second t = abs_sec t mod 60"

definition Nanosecond :: "Time \<Rightarrow> int" where
  "Nanosecond t = int (nsec t)"

text \<open>January 1 of year 1 was a Monday.\<close>

definition Weekday :: "Time \<Rightarrow> Weekday" where
  "Weekday t =
     ((abs_sec t + Monday * secondsPerDay) mod (7 * secondsPerDay)) div secondsPerDay"

definition After :: "Time \<Rightarrow> Time \<Rightarrow> bool" where
  "After t u = (unix t > unix u \<or> (unix t = unix u \<and> nsec t > nsec u))"

definition AddDate :: "Time \<Rightarrow> int \<Rightarrow> int \<Rightarrow> int \<Rightarrow> Time" where
  "AddDate t years months days =
     Date (Year t + years) (Month t + months) (Day t + days)
          (Hour t) (Minute t) (Second t) (Nanosecond t) (loc t)"

subsection \<open>Package strconv and number formatting\<close>

definition digit_char :: "nat \<Rightarrow> char" where
  "digit_char n = ''0123456789'' ! n"

fun digits :: "nat \<Rightarrow> string" where
  "digits n = (if n < 10 then [digit_char n] else digits (n div 10) @ [digit_char (n mod 10)])"

declare digits.simps [simp del]

definition Itoa :: "int \<Rightarrow> string" where
  "Itoa x = (if x < 0 then ''-'' @ digits (nat (- x)) else digits (nat x))"

text \<open>\<^verbatim>\<open>appendInt\<close> of package time: the decimal text, zero-padded to \<open>width\<close>.\<close>

definition appendInt :: "int \<Rightarrow> nat \<Rightarrow> string" where
  "appendInt x width =
     (let u = digits (nat \<bar>x\<bar>)
      in (if x < 0 then ''-'' else []) @ replicate (width - length u) (CHR ''0'') @ u)"

subsection \<open>Package time: layouts, formatting and parsing\<close>

text \<open>The chunks of a layout that the program's three layouts are made of; \<open>Lit\<close> is
  text between two chunks, copied when formatting and expected when parsing.\<close>

datatype chunk =
    stdLongYear
  | stdZeroMonth
  | stdZeroDay
  | stdMonth
  | stdZeroHour12
  | stdZeroMinute
  | stdpm
  | Lit string

fun chunk_text :: "chunk \<Rightarrow> string" where
  "chunk_text stdLongYear = ''2006''"
| "chunk_text stdZeroMonth = ''01''"
| "chunk_text stdZeroDay = ''02''"
| "chunk_text stdMonth = ''Jan''"
| "chunk_text stdZeroHour12 = ''03''"
| "chunk_text stdZeroMinute = ''04''"
| "chunk_text stdpm = ''pm''"
| "chunk_text (Lit s) = s"

text \<open>The layout string that a list of chunks stands for.\<close>

definition layout_text :: "chunk list \<Rightarrow> string" where
  "layout_text layout = concat (map chunk_text layout)"

definition longMonthNames :: "string list" where
  "longMonthNames = [''January'', ''February'', ''March'', ''April'', ''May'', ''June'',
     ''July'', ''August'', ''September'', ''October'', ''November'', ''December'']"

definition Month_String :: "Month \<Rightarrow> string" where
  "Month_String m =
     (if January \<le> m \<and> m \<le> 12 then longMonthNames ! nat (m - 1)
      else ''%!Month('' @ Itoa m @ '')'')"

fun appendChunk :: "Time \<Rightarrow> chunk \<Rightarrow> string" where
  "appendChunk t stdLongYear = appendInt (Year t) 4"
| "appendChunk t stdZeroMonth = appendInt (Month t) 2"
| "appendChunk t stdZeroDay = appendInt (Day t) 2"
| "appendChunk t stdMonth = take 3 (Month_String (Month t))"
| "appendChunk t stdZeroHour12 =
     (let hr = Hour t mod 12 in appendInt (if hr = 0 then 12 else hr) 2)"
| "appendChunk t stdZeroMinute = appendInt (Minute t) 2"
| "appendChunk t stdpm = (if Hour t \<ge> 12 then ''pm'' else ''am'')"
| "appendChunk t (Lit s) = s"

definition Format :: "Time \<Rightarrow> chunk list \<Rightarrow> string" where
  "Format t layout = concat (map (appendChunk t) layout)"

definition isDigit :: "string \<Rightarrow> nat \<Rightarrow> bool" where
  "isDigit s i = (i < length s \<and> 48 \<le> (of_char (s ! i) :: nat) \<and> (of_char (s ! i) :: nat) \<le> 57)"

definition digit_val :: "char \<Rightarrow> int" where
  "digit_val c = int (of_char c) - 48"

text \<open>\<^verbatim>\<open>atoi\<close> of package time: an optional sign, then digits only. (The overflow check
  of \<^verbatim>\<open>leadingInt\<close> is left out; the program passes four characters.)\<close>

definition atoi :: "string \<Rightarrow> int option" where
  "atoi s =
     (let neg = (s \<noteq> [] \<and> hd s = CHR ''-'');
          s = (if s \<noteq> [] \<and> (hd s = CHR ''-'' \<or> hd s = CHR ''+'') then tl s else s)
      in if list_all (\<lambda>c. 48 \<le> (of_char c :: nat) \<and> (of_char c :: nat) \<le> 57) s
         then (let x = foldl (\<lambda>acc c. acc * 10 + digit_val c) 0 s
               in Some (if neg then - x else x))
         else None)"

definition getnum :: "string \<Rightarrow> bool \<Rightarrow> (int \<times> string) option" where
  "getnum s fixed =
     (if \<not> isDigit s 0 then None
      else if \<not> isDigit s 1
           then (if fixed then None else Some (digit_val (s ! 0), drop 1 s))
           else Some (digit_val (s ! 0) * 10 + digit_val (s ! 1), drop 2 s))"

text \<open>\<^verbatim>\<open>skip\<close> for a prefix without spaces (the parsed layout has none): the value
  must start with the prefix.\<close>

fun skip :: "string \<Rightarrow> string \<Rightarrow> string option" where
  "skip v [] = Some v"
| "skip [] (p # ps) = None"
| "skip (c # v) (p # ps) = (if c = p then skip v ps else None)"

text \<open>One step of the loop of \<^verbatim>\<open>time.Parse\<close> over the layout, on the fields
  \<open>(year, month, day)\<close> and the rest of the value. \<open>None\<close> is any parse error: a
  malformed field or a month out of range. Only the chunks of the parsed layout,
  \<^verbatim>\<open>2006-01-02\<close>, are covered.\<close>

fun parse_chunk ::
  "chunk \<Rightarrow> int \<times> int \<times> int \<times> string \<Rightarrow> (int \<times> int \<times> int \<times> string) option" where
  "parse_chunk stdLongYear (y, m, d, v) =
     (if length v < 4 \<or> \<not> isDigit v 0 then None
      else (case atoi (take 4 v) of
              None \<Rightarrow> None
            | Some y' \<Rightarrow> Some (y', m, d, drop 4 v)))"
| "parse_chunk stdZeroMonth (y, m, d, v) =
     (case getnum v True of
        None \<Rightarrow> None
      | Some (m', v') \<Rightarrow> if m' \<le> 0 \<or> 12 < m' then None else Some (y, m', d, v'))"
| "parse_chunk stdZeroDay (y, m, d, v) =
     (case getnum v True of
        None \<Rightarrow> None
      | Some (d', v') \<Rightarrow> Some (y, m, d', v'))"
| "parse_chunk (Lit p) (y, m, d, v) =
     (case skip v p of None \<Rightarrow> None | Some v' \<Rightarrow> Some (y, m, d, v'))"
| "parse_chunk c (y, m, d, v) = None"

fun parse_chunks ::
  "chunk list \<Rightarrow> int \<times> int \<times> int \<times> string \<Rightarrow> (int \<times> int \<times> int \<times> string) option" where
  "parse_chunks [] st = Some st"
| "parse_chunks (c # cs) st =
     (case parse_chunk c st of None \<Rightarrow> None | Some st' \<Rightarrow> parse_chunks cs st')"

text \<open>\<^verbatim>\<open>time.Parse\<close>: text left over after the layout is an error; a month or day
  the layout does not mention defaults to 1; the day must exist in its month; the result
  is in UTC.\<close>

definition Parse :: "chunk list \<Rightarrow> string \<Rightarrow> Time option" where
  "Parse layout value =
     (case parse_chunks layout (0, - 1, - 1, value) of
        None \<Rightarrow> None
      | Some (year, month, day, rest) \<Rightarrow>
          if rest \<noteq> [] then None
          else (let month = (if month < 0 then January else month);
                    day = (if day < 0 then 1 else day)
                in if day < 1 \<or> day > daysIn month year then None
                   else Some (Date year month day 0 0 0 0 UTC)))"

subsection \<open>Package fmt: errors\<close>

text \<open>An error made by \<^verbatim>\<open>fmt.Errorf\<close> is kept as its format string and its arguments;
  \<open>SinkError\<close> is an error of the writer underneath the CSV writer.\<close>

datatype error = Errorf string "arg list" | SinkError
  and arg = Str string | Tm Time | Er error

subsection \<open>Package encoding/csv\<close>

text \<open>\<^verbatim>\<open>unicode.IsSpace\<close> of the first rune of a field, read off its UTF-8 bytes:
  the ASCII white space, U+0085, U+00A0, U+1680, U+2000 to U+200A, U+2028, U+2029,
  U+202F, U+205F and U+3000.\<close>

definition firstRuneIsSpace :: "string \<Rightarrow> bool" where
  "firstRuneIsSpace field =
     (let b = map (\<lambda>c. (of_char c :: nat)) (take 3 field)
      in (case b of
            [] \<Rightarrow> False
          | b0 # r \<Rightarrow>
              b0 \<in> {9, 10, 11, 12, 13, 32}
              \<or> (b0 = 194 \<and> (take 1 r = [133] \<or> take 1 r = [160]))
              \<or> (b0 = 225 \<and> r = [154, 128])
              \<or> (b0 = 226 \<and> (case r of
                                 [b1, b2] \<Rightarrow>
                                   (b1 = 128 \<and> (128 \<le> b2 \<and> b2 \<le> 138 \<or> b2 \<in> {168, 169, 175}))
                                   \<or> (b1 = 129 \<and> b2 = 159)
                               | _ \<Rightarrow> False))
              \<or> (b0 = 227 \<and> r = [128, 128])))"

definition fieldNeedsQuotes :: "string \<Rightarrow> bool" where
  "fieldNeedsQuotes field =
     (if field = [] then False
      else if field = [CHR 0x5C, CHR ''.''] then True
      else if \<exists>c \<in> set field. c = CHR ''\<newline>'' \<or> c = CHR 0x0D \<or> c = CHR 0x22 \<or> c = CHR '',''
           then True
      else firstRuneIsSpace field)"

text \<open>A quoted field doubles each quote character (\<^verbatim>\<open>UseCRLF\<close> is off).\<close>

definition csv_field :: "string \<Rightarrow> string" where
  "csv_field field =
     (if \<not> fieldNeedsQuotes field then field
      else [CHR 0x22] @ concat (map (\<lambda>c. if c = CHR 0x22 then [CHR 0x22, CHR 0x22] else [c]) field)
           @ [CHR 0x22])"

fun csv_join :: "string list \<Rightarrow> string" where
  "csv_join [] = []"
| "csv_join [f] = csv_field f"
| "csv_join (f # fs) = csv_field f @ '','' @ csv_join fs"

definition csv_line :: "string list \<Rightarrow> string" where
  "csv_line record = csv_join record @ ''\<newline>''"

text \<open>The writer underneath: what it has received, and whether it accepts writes.\<close>

record sink =
  written :: string
  accepts :: bool

text \<open>A \<^verbatim>\<open>csv.Writer\<close> buffers its lines and hands them to the sink when flushed
  (\<^verbatim>\<open>bufio\<close> also flushes when 4096 bytes are full; on a sink that accepts writes the
  bytes received are the same, and on one that does not the error reaches \<^verbatim>\<open>WriteAll\<close>
  either way).\<close>

record csv_Writer =
  buf :: string
  dest :: sink

definition NewWriter :: "sink \<Rightarrow> csv_Writer" where
  "NewWriter f = \<lparr> buf = [], dest = f \<rparr>"

definition csv_Write :: "csv_Writer \<Rightarrow> string list \<Rightarrow> csv_Writer \<times> error option" where
  "csv_Write w record = (w\<lparr> buf := buf w @ csv_line record \<rparr>, None)"

definition csv_Flush :: "csv_Writer \<Rightarrow> csv_Writer \<times> error option" where
  "csv_Flush w =
     (if accepts (dest w)
      then (\<lparr> buf = [], dest = (dest w)\<lparr> written := written (dest w) @ buf w \<rparr> \<rparr>, None)
      else (w, Some SinkError))"

fun csv_WriteAll :: "csv_Writer \<Rightarrow> string list list \<Rightarrow> csv_Writer \<times> error option" where
  "csv_WriteAll w [] = csv_Flush w"
| "csv_WriteAll w (record # records) =
     (case csv_Write w record of
        (w', Some err) \<Rightarrow> (w', Some err)
      | (w', None) \<Rightarrow> csv_WriteAll w' records)"

subsection \<open>The program: constants, flags and records\<close>

text \<open>The three layouts, \<^verbatim>\<open>"2006-01-02"\<close>, \<^verbatim>\<open>"02-Jan-2006"\<close> and \<^verbatim>\<open>"03:04 pm"\<close>.\<close>

definition flagDateFormat :: "chunk list" where
  "flagDateFormat = [stdLongYear, Lit ''-'', stdZeroMonth, Lit ''-'', stdZeroDay]"

definition csvDateFormat :: "chunk list" where
  "csvDateFormat = [stdZeroDay, Lit ''-'', stdMonth, Lit ''-'', stdLongYear]"

definition csvTimeFormat :: "chunk list" where
  "csvTimeFormat = [stdZeroHour12, Lit '':'', stdZeroMinute, Lit '' '', stdpm]"

text \<open>The package-level flag variables after \<^verbatim>\<open>flag.Parse\<close>. The defaults are
  \<open>start = ""\<close>, \<open>end = ""\<close>, \<open>hours = 8\<close> and \<open>job = "Work Time"\<close>.\<close>

record flags =
  start :: string
  end' :: string
  hours :: "64 word"
  job :: string

text \<open>What the program reads from its surroundings: the local time zone, the clock
  (\<^verbatim>\<open>time.Now\<close>) and the file system (\<^verbatim>\<open>os.Create\<close>).\<close>

record env =
  Local :: Location
  now_unix :: int
  now_nsec :: nat
  os_Create :: "string \<Rightarrow> error + sink"

definition Now :: "env \<Rightarrow> Time" where
  "Now e = \<lparr> unix = now_unix e, nsec = now_nsec e, loc = Local e \<rparr>"

record daily =
  date :: string
  jobName :: string
  startTime :: string
  endTime :: string

definition toStringSlice :: "flags \<Rightarrow> daily \<Rightarrow> string list" where
  "toStringSlice fl d = [date d, jobName d, startTime d, endTime d, Itoa (sint (hours fl))]"

subsection \<open>parseFlags\<close>

text \<open>The first part of \<^verbatim>\<open>parseFlags\<close> (lines 74 to 93) resolves the two dates: each
  is parsed from its flag, or defaults, the end to the current time and the start to the
  Monday on or before the end.\<close>

definition resolveDates :: "flags \<Rightarrow> env \<Rightarrow> error + (Time \<times> Time)" where
  "resolveDates fl e =
     (case (if end' fl = [] then Inr (Now e)
            else (case Parse flagDateFormat (end' fl) of
                    None \<Rightarrow> Inl (Errorf ''invalid --end %q, expected format %q''
                                   [Str (end' fl), Str (layout_text flagDateFormat)])
                  | Some t \<Rightarrow> Inr t)) of
        Inl err \<Rightarrow> Inl err
      | Inr endDay \<Rightarrow>
          (case (if start fl = []
                 then (let daysDiff = (Weekday endDay + 6) mod 7
                       in Inr (AddDate endDay 0 0 (- daysDiff)))
                 else (case Parse flagDateFormat (start fl) of
                         None \<Rightarrow> Inl (Errorf ''invalid --start %q, expected format %q''
                                        [Str (start fl), Str (layout_text flagDateFormat)])
                       | Some t \<Rightarrow> Inr t)) of
             Inl err \<Rightarrow> Inl err
           | Inr startDay \<Rightarrow> Inr (startDay, endDay)))"

text \<open>The second part (lines 95 to 101) compares the two resolved dates and then moves
  each to midnight, local time, of its calendar day.\<close>

definition parseFlags :: "flags \<Rightarrow> env \<Rightarrow> error + (Time \<times> Time)" where
  "parseFlags fl e =
     (case resolveDates fl e of
        Inl err \<Rightarrow> Inl err
      | Inr (startDay, endDay) \<Rightarrow>
          if After startDay endDay
          then Inl (Errorf
            ''start day %s is after end day %s, that's probably not going to work for you''
            [Tm startDay, Tm endDay])
          else (let midnightStart =
                      Date (Year startDay) (Month startDay) (Day startDay) 0 0 0 0 (Local e);
                    midnightEnd =
                      Date (Year endDay) (Month endDay) (Day endDay) 0 0 0 0 (Local e)
                in Inr (midnightStart, midnightEnd)))"

subsection \<open>writeCSV\<close>

text \<open>\<^verbatim>\<open>writeCSV\<close> writes to the sink \<open>f\<close>; the result on success is the sink after
  the write. The loop that fills \<open>records\<close> is the \<open>map\<close>.\<close>

definition writeCSV :: "flags \<Rightarrow> sink \<Rightarrow> daily list \<Rightarrow> error + sink" where
  "writeCSV fl f log =
     (let w = NewWriter f
      in (case csv_Write w [''Date'', ''Job Name'', ''From time'', ''To time'', ''Hours''] of
            (w, Some err) \<Rightarrow> Inl (Errorf ''could not write header: %v'' [Er err])
          | (w, None) \<Rightarrow>
              (let records = map (toStringSlice fl) log
               in (case csv_WriteAll w records of
                     (w, Some err) \<Rightarrow> Inl (Errorf ''could not write records: %v'' [Er err])
                   | (w, None) \<Rightarrow> Inr (dest w)))))"

section \<open>The vocabulary of the properties\<close>

text \<open>The number of the calendar day a time falls on (days since 0001-01-01, on the
  clock of the time's location), and the instant at which a day starts in a location.\<close>

definition dayNumber :: "Time \<Rightarrow> int" where
  "dayNumber t = abs_sec t div secondsPerDay"

definition midnight :: "Location \<Rightarrow> int \<Rightarrow> Time" where
  "midnight l n = \<lparr> unix = n * secondsPerDay - unixToAbsolute - l, nsec = 0, loc = l \<rparr>"

text \<open>The text of a clock time \<open>h:00\<close> in the layout \<^verbatim>\<open>03:04 pm\<close>.\<close>

definition clock12 :: "int \<Rightarrow> string" where
  "clock12 h = appendInt (if h mod 12 = 0 then 12 else h mod 12) 2 @ '':00 ''
                 @ (if 12 \<le> h then ''pm'' else ''am'')"

text \<open>The record of the day with number \<open>n\<close>.\<close>

definition day_record :: "flags \<Rightarrow> Location \<Rightarrow> string \<Rightarrow> string \<Rightarrow> int \<Rightarrow> daily" where
  "day_record fl l sh eh n =
     \<lparr> date = Format (midnight l n) csvDateFormat, jobName = job fl,
        startTime = sh, endTime = eh \<rparr>"

definition workday :: "int \<Rightarrow> bool" where
  "workday n = (Monday \<le> (n + 1) mod 7 \<and> (n + 1) mod 7 \<le> 5)"

text \<open>The shape that the flag help and the specification describe: four digits, a
  hyphen, two digits, a hyphen, two digits; and the numbers such a text holds.\<close>

definition digit_chr :: "char \<Rightarrow> bool" where
  "digit_chr c = (48 \<le> (of_char c :: nat) \<and> (of_char c :: nat) \<le> 57)"

definition date_shape :: "string \<Rightarrow> bool" where
  "date_shape s =
     (case s of
        [y1, y2, y3, y4, h1, m1, m2, h2, d1, d2] \<Rightarrow>
          digit_chr y1 \<and> digit_chr y2 \<and> digit_chr y3 \<and> digit_chr y4 \<and> h1 = CHR ''-''
          \<and> digit_chr m1 \<and> digit_chr m2 \<and> h2 = CHR ''-'' \<and> digit_chr d1 \<and> digit_chr d2
      | _ \<Rightarrow> False)"

definition date_fields :: "string \<Rightarrow> int \<times> int \<times> int" where
  "date_fields s =
     (case s of
        [y1, y2, y3, y4, h1, m1, m2, h2, d1, d2] \<Rightarrow>
          (((digit_val y1 * 10 + digit_val y2) * 10 + digit_val y3) * 10 + digit_val y4,
           digit_val m1 * 10 + digit_val m2,
           digit_val d1 * 10 + digit_val d2)
      | _ \<Rightarrow> (0, 0, 0))"

text \<open>A text of that shape that names a day of the calendar.\<close>

definition valid_date :: "string \<Rightarrow> bool" where
  "valid_date s =
     (date_shape s \<and>
      (case date_fields s of
         (y, m, d) \<Rightarrow> 1 \<le> m \<and> m \<le> 12 \<and> 1 \<le> d \<and> d \<le> daysIn m y))"

text \<open>The flags and the surroundings of the scenario used in the examples: an explicit
  range from Monday 2024-01-01 to Sunday 2024-01-07, eight hours a day, a local zone five
  hours west of UTC, at 20:00:00 local time on Saturday 2024-03-09, and a file system that
  creates an empty file that accepts writes.\<close>

definition fl0 :: flags where
  "fl0 = \<lparr> start = ''2024-01-01'', end' = ''2024-01-07'', hours = 8, job = ''Work Time'' \<rparr>"

definition env0 :: env where
  "env0 = \<lparr> Local = - 18000, now_unix = 1710032400, now_nsec = 5,
            os_Create = (\<lambda>name. Inr \<lparr> written = [], accepts = True \<rparr>) \<rparr>"

section \<open>Facts about the calendar arithmetic\<close>

lemma neg_div_aux:
  fixes b lo :: int
  assumes "0 < b"
  shows "(- lo - 1) div b + 1 = - (lo div b)"
proof -
  have r: "0 \<le> lo mod b" "lo mod b < b" using assms by simp_all
  have "- lo - 1 = (b - 1 - lo mod b) + (- (lo div b) - 1) * b"
    using mult_div_mod_eq [of b lo] by (simp add: algebra_simps)
  then have "(- lo - 1) div b = ((b - 1 - lo mod b) + (- (lo div b) - 1) * b) div b"
    by (rule arg_cong)
  also have "\<dots> = (b - 1 - lo mod b) div b + (- (lo div b) - 1)"
    using assms by simp
  also have "(b - 1 - lo mod b) div b = 0"
    using r by (simp add: div_pos_pos_trivial)
  finally show ?thesis by simp
qed

lemma norm_eq: "0 < b \<Longrightarrow> norm hi lo b = (hi + lo div b, lo mod b)"
proof (cases "lo < 0")
  case True
  assume b: "0 < b"
  have n: "(- lo - 1) div b + 1 = - (lo div b)" using b by (rule neg_div_aux)
  have m: "lo + (- (lo div b)) * b = lo mod b"
    using mult_div_mod_eq [of b lo] by (simp add: algebra_simps)
  have "lo mod b < b" using b by simp
  then show ?thesis using True n m by (simp add: norm_def Let_def)
next
  case False
  assume b: "0 < b"
  show ?thesis
  proof (cases "lo \<ge> b")
    case True
    have "lo - lo div b * b = lo mod b"
      using mult_div_mod_eq [of b lo] by (simp add: algebra_simps)
    then show ?thesis using False True by (simp add: norm_def Let_def)
  next
    case False
    with \<open>\<not> lo < 0\<close> have "lo div b = 0" "lo mod b = lo"
      by (simp_all add: div_pos_pos_trivial mod_pos_pos_trivial)
    then show ?thesis using False \<open>\<not> lo < 0\<close> by (simp add: norm_def Let_def)
  qed
qed

lemma div_bounds:
  fixes a b :: int
  assumes "0 < b"
  shows "b * (a div b) \<le> a" "a < b * (a div b) + b"
proof -
  have "a = b * (a div b) + a mod b" by simp
  moreover have "0 \<le> a mod b" "a mod b < b" using assms by simp_all
  ultimately show "b * (a div b) \<le> a" "a < b * (a div b) + b" by linarith+
qed

lemma div_eqI:
  fixes a b q :: int
  assumes "b * q \<le> a" "a < b * q + b"
  shows "a div b = q"
proof -
  have "a = b * q + (a - b * q)" by simp
  moreover have "0 \<le> a - b * q" "a - b * q < b" using assms by simp_all
  ultimately show ?thesis by (rule int_div_pos_eq)
qed

lemma cap3:
  fixes c :: int
  assumes "0 \<le> c" "c \<le> 4"
  shows "c - c div 4 = (if c = 4 then 3 else c)"
proof -
  from assms consider "c = 0" | "c = 1" | "c = 2" | "c = 3" | "c = 4" by linarith
  then show ?thesis by cases simp_all
qed

lemma absYear_split:
  assumes "absYear a = (year, yday)"
  shows "daysSinceEpoch year + yday = a div secondsPerDay"
    and "0 \<le> yday"
    and "yday < (if isLeap year then 366 else 365)"
proof -
  define d0 where "d0 = a div secondsPerDay"
  define n400 where "n400 = d0 div 146097"
  define d1 where "d1 = d0 - 146097 * n400"
  define c100 where "c100 = d1 div 36524"
  define n100 where "n100 = c100 - c100 div 4"
  define d2 where "d2 = d1 - 36524 * n100"
  define n4 where "n4 = d2 div 1461"
  define d3 where "d3 = d2 - 1461 * n4"
  define c1 where "c1 = d3 div 365"
  define n1 where "n1 = c1 - c1 div 4"
  define d4 where "d4 = d3 - 365 * n1"
  have "absYear a = (400 * n400 + 100 * n100 + 4 * n4 + n1 + 1, d4)"
    unfolding absYear_def Let_def d4_def n1_def c1_def d3_def n4_def d2_def n100_def
      c100_def d1_def n400_def d0_def
    by (rule refl)
  then have res: "year = 400 * n400 + 100 * n100 + 4 * n4 + n1 + 1" "yday = d4"
    using assms by simp_all
  have b1: "0 \<le> d1" "d1 < 146097"
    using div_bounds [of 146097 d0] unfolding d1_def n400_def by simp_all
  have bc100: "0 \<le> c100" "c100 \<le> 4" "36524 * c100 \<le> d1" "d1 < 36524 * c100 + 36524"
    using div_bounds [of 36524 d1] b1 unfolding c100_def by simp_all
  have n100_eq: "n100 = (if c100 = 4 then 3 else c100)"
    unfolding n100_def using bc100(1,2) by (rule cap3)
  have bn100: "0 \<le> n100" "n100 \<le> 3" using n100_eq bc100 by (auto split: if_splits)
  have b2: "0 \<le> d2" "d2 \<le> 36524" "n100 < 3 \<Longrightarrow> d2 < 36524"
    using n100_eq bc100 b1 unfolding d2_def by (auto split: if_splits)
  have bn4: "0 \<le> n4" "n4 \<le> 24" "1461 * n4 \<le> d2" "d2 < 1461 * n4 + 1461"
    using div_bounds [of 1461 d2] b2 unfolding n4_def by simp_all
  have b3: "0 \<le> d3" "d3 < 1461" "n100 < 3 \<Longrightarrow> n4 = 24 \<Longrightarrow> d3 < 1460"
    using bn4 b2 unfolding d3_def by auto
  have bc1: "0 \<le> c1" "c1 \<le> 4" "365 * c1 \<le> d3" "d3 < 365 * c1 + 365"
    using div_bounds [of 365 d3] b3 unfolding c1_def by simp_all
  have n1_eq: "n1 = (if c1 = 4 then 3 else c1)"
    unfolding n1_def using bc1(1,2) by (rule cap3)
  have bn1: "0 \<le> n1" "n1 \<le> 3" using n1_eq bc1 by (auto split: if_splits)
  have b4: "0 \<le> d4" "d4 \<le> 365" "n1 < 3 \<Longrightarrow> d4 < 365"
    "n100 < 3 \<Longrightarrow> n4 = 24 \<Longrightarrow> d4 < 365"
    using n1_eq bc1 b3 unfolding d4_def by (auto split: if_splits)
  have sum: "d0 = 146097 * n400 + 36524 * n100 + 1461 * n4 + 365 * n1 + d4"
    unfolding d4_def d3_def d2_def d1_def by simp
  define r where "r = 100 * n100 + 4 * n4 + n1"
  have y1: "year - 1 = 400 * n400 + r" unfolding r_def res by simp
  have br: "0 \<le> r" "r < 400" unfolding r_def using bn100 bn4 bn1 by simp_all
  have q400: "(year - 1) div 400 = n400"
    using y1 br by (intro div_eqI) simp_all
  have r400: "year - 1 - 400 * n400 = r" using y1 by simp
  define r2 where "r2 = 4 * n4 + n1"
  have br2: "0 \<le> r2" "r2 < 100" unfolding r2_def using bn4 bn1 by simp_all
  have q100: "r div 100 = n100"
    using br2 unfolding r_def r2_def by (intro div_eqI) simp_all
  have r100: "r - 100 * n100 = r2" unfolding r_def r2_def by simp
  have q4: "r2 div 4 = n4"
    using bn1 unfolding r2_def by (intro div_eqI) simp_all
  have r4: "r2 - 4 * n4 = n1" unfolding r2_def by simp
  have dse: "daysSinceEpoch year = 146097 * n400 + 36524 * n100 + 1461 * n4 + 365 * n1"
    unfolding daysSinceEpoch_def Let_def q400 r400 q100 r100 q4 r4 by simp
  show "daysSinceEpoch year + yday = a div secondsPerDay"
    using dse sum res(2) unfolding d0_def by simp
  show "0 \<le> yday" using b4 res by simp
  have m4: "year mod 4 = 0 \<Longrightarrow> n1 = 3"
  proof -
    assume z: "year mod 4 = 0"
    have "year = (n1 + 1) + (100 * n400 + 25 * n100 + n4) * 4" unfolding res by simp
    then have e: "year mod 4 = (n1 + 1) mod 4" by (metis mod_mult_self1)
    from bn1 consider "n1 = 0" | "n1 = 1" | "n1 = 2" | "n1 = 3" by linarith
    then show "n1 = 3" using z e by cases simp_all
  qed
  have m100: "year mod 100 = 0 \<Longrightarrow> n4 = 24"
  proof -
    assume z: "year mod 100 = 0"
    have "year = (r2 + 1) + (4 * n400 + n100) * 100" unfolding res r2_def by simp
    then have e: "year mod 100 = (r2 + 1) mod 100" by (metis mod_mult_self1)
    have "\<not> r2 + 1 < 100"
    proof
      assume "r2 + 1 < 100"
      then have "(r2 + 1) mod 100 = r2 + 1" using br2 by (simp add: mod_pos_pos_trivial)
      then show False using z e br2 by simp
    qed
    then show "n4 = 24" using bn4 bn1 unfolding r2_def by linarith
  qed
  have m400: "n100 = 3 \<Longrightarrow> n4 = 24 \<Longrightarrow> n1 = 3 \<Longrightarrow> year mod 400 = 0"
  proof -
    assume "n100 = 3" "n4 = 24" "n1 = 3"
    then have "year = (n400 + 1) * 400" unfolding res by simp
    then show ?thesis by simp
  qed
  show "yday < (if isLeap year then 366 else 365)"
  proof (cases "isLeap year")
    case True
    then show ?thesis using b4 res by simp
  next
    case False
    have "d4 < 365"
    proof (cases "year mod 4 = 0")
      case n: False
      show ?thesis
      proof (cases "n1 = 3")
        case True
        have "n1 < 3 \<or> n1 = 3" using bn1 by linarith
        have y: "year = (100 * n400 + 25 * n100 + n4 + 1) * 4" unfolding res True by simp
        have "year mod 4 = 0" unfolding y by simp
        then show ?thesis using n by simp
      next
        case False
        then have "n1 < 3" using bn1 by linarith
        then show ?thesis by (rule b4(3))
      qed
    next
      case True
      with False have h: "year mod 100 = 0" "year mod 400 \<noteq> 0"
        by (auto simp: isLeap_def)
      have "n4 = 24" using h(1) by (rule m100)
      moreover have "n1 = 3" using True by (rule m4)
      ultimately have "n100 \<noteq> 3" using m400 h(2) by blast
      then have "n100 < 3" using bn100 by linarith
      then show ?thesis using \<open>n4 = 24\<close> by (rule b4(4))
    qed
    then show ?thesis using False res by simp
  qed
qed

lemma month_of_day:
  fixes day :: int
  assumes "0 \<le> day" "day \<le> 364"
  defines "k \<equiv> day div 31"
  defines "mb \<equiv> (if day \<ge> daysBefore (k + 1) then (k + 1, daysBefore (k + 1))
                   else (k, daysBefore k))"
  shows "0 \<le> fst mb \<and> fst mb \<le> 11 \<and> snd mb = daysBefore (fst mb) \<and> snd mb \<le> day
         \<and> day < daysBefore (fst mb + 1) \<and> (2 \<le> fst mb \<longleftrightarrow> 59 \<le> day)"
proof -
  have kb: "31 * k \<le> day" "day < 31 * k + 31"
    unfolding k_def using div_bounds [of 31 day] by simp_all
  then have "0 \<le> k" "k \<le> 11" using assms(1,2) by linarith+
  then consider "k = 0" | "k = 1" | "k = 2" | "k = 3" | "k = 4" | "k = 5" | "k = 6"
    | "k = 7" | "k = 8" | "k = 9" | "k = 10" | "k = 11" by atomize_elim arith
  then show ?thesis
  proof cases
    case 1 then show ?thesis using kb assms(1,2) unfolding mb_def by (simp add: daysBefore_def)
  next
    case 2 then show ?thesis using kb assms(1,2) unfolding mb_def by (simp add: daysBefore_def)
  next
    case 3 then show ?thesis using kb assms(1,2) unfolding mb_def by (simp add: daysBefore_def)
  next
    case 4 then show ?thesis using kb assms(1,2) unfolding mb_def by (simp add: daysBefore_def)
  next
    case 5 then show ?thesis using kb assms(1,2) unfolding mb_def by (simp add: daysBefore_def)
  next
    case 6 then show ?thesis using kb assms(1,2) unfolding mb_def by (simp add: daysBefore_def)
  next
    case 7 then show ?thesis using kb assms(1,2) unfolding mb_def by (simp add: daysBefore_def)
  next
    case 8 then show ?thesis using kb assms(1,2) unfolding mb_def by (simp add: daysBefore_def)
  next
    case 9 then show ?thesis using kb assms(1,2) unfolding mb_def by (simp add: daysBefore_def)
  next
    case 10 then show ?thesis using kb assms(1,2) unfolding mb_def by (simp add: daysBefore_def)
  next
    case 11 then show ?thesis using kb assms(1,2) unfolding mb_def by (simp add: daysBefore_def)
  next
    case 12 then show ?thesis using kb assms(1,2) unfolding mb_def by (simp add: daysBefore_def)
  qed
qed

lemma absDate_days:
  assumes "absDate a = (y, m, d, yd)"
  shows "1 \<le> m \<and> m \<le> 12 \<and>
         daysSinceEpoch y + daysBefore (m - 1) + (if isLeap y \<and> March \<le> m then 1 else 0)
           + (d - 1) = a div secondsPerDay"
proof -
  obtain year yday where ay: "absYear a = (year, yday)" by (cases "absYear a")
  note sp = absYear_split [OF ay]
  show ?thesis
  proof (cases "isLeap year \<and> yday = 31 + 29 - 1")
    case True
    then have "y = year" "m = 2" "d = 29" using assms ay
      by (simp_all add: absDate_def February_def)
    then show ?thesis using sp(1) True by (simp add: daysBefore_def March_def)
  next
    case False
    define day where "day = (if isLeap year \<and> yday > 31 + 29 - 1 then yday - 1 else yday)"
    define k where "k = day div 31"
    define mb where "mb = (if day \<ge> daysBefore (k + 1) then (k + 1, daysBefore (k + 1))
                           else (k, daysBefore k))"
    have nl: "(isLeap year \<and> yday = 31 + 29 - 1) = False" using False by simp
    have "absDate a = (year, fst mb + 1, day - snd mb + 1, yday)"
      unfolding absDate_def ay prod.case Let_def nl if_False mb_def k_def day_def
      by (simp add: split_beta)
    then have res: "y = year" "m = fst mb + 1" "d = day - snd mb + 1"
      using assms by simp_all
    have db: "0 \<le> day" "day \<le> 364"
      using sp(2,3) False unfolding day_def by (auto split: if_splits)
    have M: "0 \<le> fst mb \<and> fst mb \<le> 11 \<and> snd mb = daysBefore (fst mb) \<and> snd mb \<le> day
         \<and> day < daysBefore (fst mb + 1) \<and> (2 \<le> fst mb \<longleftrightarrow> 59 \<le> day)"
      unfolding mb_def k_def using db by (rule month_of_day)
    have adj: "(if isLeap year \<and> March \<le> m then 1 else 0) + day = yday"
      using M False unfolding res day_def March_def by (auto split: if_splits)
    show ?thesis using M adj sp(1) unfolding res by simp
  qed
qed

lemma Date_eq:
  "Date year month day hour mi sec ns l =
     (let m0 = month - 1;
          y' = year + m0 div 12;
          m' = m0 mod 12 + 1;
          s1 = sec + ns div 1000000000;
          m1 = mi + s1 div 60;
          h1 = hour + m1 div 60;
          d' = day + h1 div 24;
          days = daysSinceEpoch y' + daysBefore (m' - 1)
                   + (if isLeap y' \<and> March \<le> m' then 1 else 0) + (d' - 1)
      in \<lparr> unix = days * secondsPerDay + (h1 mod 24 * 3600 + m1 mod 60 * 60 + s1 mod 60)
                    - unixToAbsolute - l,
           nsec = nat (ns mod 1000000000), loc = l \<rparr>)"
  unfolding Date_def by (simp add: norm_eq Let_def)

lemma clock_split:
  fixes a :: int
  shows "a = (a div 86400) * 86400 + ((a mod 86400) div 3600) * 3600 + ((a mod 3600) div 60) * 60 + a mod 60"
    and "0 \<le> (a mod 86400) div 3600" "(a mod 86400) div 3600 < 24"
    and "0 \<le> (a mod 3600) div 60" "(a mod 3600) div 60 < 60"
    and "0 \<le> a mod 60" "a mod 60 < 60"
proof -
  have m1: "a mod 3600 = (a mod 86400) mod 3600" by (simp add: mod_mod_cancel)
  have m2: "a mod 60 = (a mod 3600) mod 60" by (simp add: mod_mod_cancel)
  have e1: "a = (a div 86400) * 86400 + a mod 86400" by simp
  have e2: "a mod 86400 = ((a mod 86400) div 3600) * 3600 + (a mod 86400) mod 3600" by simp
  have e3: "a mod 3600 = ((a mod 3600) div 60) * 60 + (a mod 3600) mod 60" by simp
  show "a = (a div 86400) * 86400 + ((a mod 86400) div 3600) * 3600 + ((a mod 3600) div 60) * 60 + a mod 60"
    using e1 e2 e3 m1 m2 by linarith
  have r: "0 \<le> a mod 86400" "a mod 86400 < 86400" "0 \<le> a mod 3600" "a mod 3600 < 3600" by simp_all
  show "0 \<le> (a mod 86400) div 3600" using r by (simp add: pos_imp_zdiv_nonneg_iff)
  show "(a mod 86400) div 3600 < 24" using div_bounds [of 3600 "a mod 86400"] r by linarith
  show "0 \<le> (a mod 3600) div 60" using r by (simp add: pos_imp_zdiv_nonneg_iff)
  show "(a mod 3600) div 60 < 60" using div_bounds [of 60 "a mod 3600"] r by linarith
  show "0 \<le> a mod 60" "a mod 60 < 60" by simp_all
qed

lemma small_div_mod:
  fixes x b :: int
  assumes "0 \<le> x" "x < b"
  shows "x div b = 0" "x mod b = x"
  using assms by (simp_all add: div_pos_pos_trivial mod_pos_pos_trivial)

lemma carry_total_lin:
  fixes h mi s :: int
  assumes "s = q1 * 60 + r1" "mi + q1 = q2 * 60 + r2" "h + q2 = q3 * 24 + r3"
  shows "q3 * 86400 + (r3 * 3600 + r2 * 60 + r1) = h * 3600 + mi * 60 + s"
  using assms by linarith

lemma carry_total:
  fixes h mi s :: int
  shows "((h + (mi + s div 60) div 60) div 24) * 86400
           + ((h + (mi + s div 60) div 60) mod 24 * 3600 + (mi + s div 60) mod 60 * 60 + s mod 60)
         = h * 3600 + mi * 60 + s"
  by (rule carry_total_lin) simp_all

text \<open>The instant that \<^verbatim>\<open>Date\<close> returns for a month between 1 and 12: every other
  field may still be out of range.\<close>

lemma Date_total:
  assumes "1 \<le> month" "month \<le> 12"
  shows "Date year month day hour mi sec ns l =
     \<lparr> unix = (daysSinceEpoch year + daysBefore (month - 1)
                  + (if isLeap year \<and> March \<le> month then 1 else 0) + (day - 1)) * secondsPerDay
                + (hour * 3600 + mi * 60 + (sec + ns div 1000000000)) - unixToAbsolute - l,
        nsec = nat (ns mod 1000000000), loc = l \<rparr>"
proof -
  have mm: "(month - 1) div 12 = 0" "(month - 1) mod 12 = month - 1"
    using assms by (simp_all add: small_div_mod)
  note ct = carry_total [of hour mi "sec + ns div 1000000000"]
  show ?thesis
    unfolding Date_eq Let_def mm using ct
    by (simp add: secondsPerDay_def algebra_simps)
qed

subsection \<open>Calendar days\<close>

lemma Date_fields:
  "Date (Year t) (Month t) (Day t + n) hour mi sec ns l =
     \<lparr> unix = (dayNumber t + n) * secondsPerDay
                + (hour * 3600 + mi * 60 + (sec + ns div 1000000000)) - unixToAbsolute - l,
        nsec = nat (ns mod 1000000000), loc = l \<rparr>"
proof -
  obtain y m d yd where ad: "absDate (abs_sec t) = (y, m, d, yd)"
    by (cases "absDate (abs_sec t)")
  have f: "Year t = y" "Month t = m" "Day t = d"
    by (simp_all add: Year_def Month_def Day_def ad)
  from absDate_days [OF ad] have mb: "1 \<le> m" "m \<le> 12"
    and days: "daysSinceEpoch y + daysBefore (m - 1) + (if isLeap y \<and> March \<le> m then 1 else 0)
           + (d - 1) = dayNumber t" by (simp_all add: dayNumber_def)
  have days': "daysSinceEpoch y + daysBefore (m - 1) + (if isLeap y \<and> March \<le> m then 1 else 0)
           + (d + n - 1) = dayNumber t + n" using days by simp
  show ?thesis unfolding f Date_total [OF mb] days' by simp
qed

lemma abs_sec_split:
  "abs_sec t = dayNumber t * secondsPerDay + (Hour t * 3600 + Minute t * 60 + Second t)"
  using clock_split(1) [of "abs_sec t"]
  unfolding dayNumber_def Hour_def Minute_def Second_def secondsPerDay_def by simp

lemma AddDate_days:
  "AddDate t 0 0 n =
     \<lparr> unix = unix t + n * secondsPerDay + int (nsec t) div 1000000000,
        nsec = nsec t mod 1000000000, loc = loc t \<rparr>"
proof -
  have "(dayNumber t + n) * secondsPerDay
          + (Hour t * 3600 + Minute t * 60 + (Second t + int (nsec t) div 1000000000))
          - unixToAbsolute - loc t
        = unix t + n * secondsPerDay + int (nsec t) div 1000000000"
    using abs_sec_split [of t] unfolding abs_sec_def by (simp add: algebra_simps)
  moreover have "nat (int (nsec t) mod 1000000000) = nsec t mod 1000000000"
    by (simp add: nat_mod_distrib)
  ultimately show ?thesis
    unfolding AddDate_def Nanosecond_def using Date_fields [of t n] by simp
qed

lemma Date_midnight:
  "Date (Year t) (Month t) (Day t) 0 0 0 0 l = midnight l (dayNumber t)"
  using Date_fields [of t 0 0 0 0 0 l] by (simp add: midnight_def)

lemma dayNumber_midnight [simp]: "dayNumber (midnight l n) = n"
  by (simp add: dayNumber_def midnight_def abs_sec_def secondsPerDay_def)

lemma AddDate_midnight: "AddDate (midnight l n) 0 0 k = midnight l (n + k)"
  unfolding AddDate_days by (simp add: midnight_def algebra_simps)

lemma After_midnight: "After (midnight l a) (midnight l b) = (b < a)"
  by (simp add: After_def midnight_def secondsPerDay_def)

lemma Weekday_dayNumber: "Weekday t = (dayNumber t + 1) mod 7"
proof -
  have "(abs_sec t + 86400) mod (86400 * 7) = 86400 * ((abs_sec t + 86400) div 86400 mod 7)
          + (abs_sec t + 86400) mod 86400"
    by (rule zmod_zmult2_eq) simp
  moreover have "0 \<le> (abs_sec t + 86400) mod 86400" "(abs_sec t + 86400) mod 86400 < 86400"
    by simp_all
  ultimately have "((abs_sec t + 86400) mod (86400 * 7)) div 86400
                     = (abs_sec t + 86400) div 86400 mod 7"
    by (intro div_eqI) linarith+
  moreover have "(abs_sec t + 86400) div 86400 = abs_sec t div 86400 + 1" by simp
  ultimately show ?thesis
    by (simp add: Weekday_def dayNumber_def Monday_def secondsPerDay_def)
qed

lemma Weekday_midnight: "Weekday (midnight l n) = (n + 1) mod 7"
  by (simp add: Weekday_dayNumber)

section \<open>The program, continued\<close>

subsection \<open>buildLog\<close>

text \<open>The loop of \<^verbatim>\<open>buildLog\<close>: it runs while \<open>startDay\<close> is not after \<open>endDay\<close>
  and moves \<open>startDay\<close> one calendar day ahead each time.\<close>

lemma AddDate_day_later: "unix t + secondsPerDay \<le> unix (AddDate t 0 0 1)"
proof -
  have "0 \<le> int (nsec t) div 1000000000" by (simp add: pos_imp_zdiv_nonneg_iff)
  then show ?thesis unfolding AddDate_days by simp
qed

function buildLog_loop ::
  "flags \<Rightarrow> string \<Rightarrow> string \<Rightarrow> Time \<Rightarrow> Time \<Rightarrow> daily list \<Rightarrow> daily list" where
  "buildLog_loop fl startHour endHour startDay endDay log =
     (if \<not> After startDay endDay
      then (let weekDay = Weekday startDay;
                log = (if weekDay \<noteq> Saturday \<and> weekDay \<noteq> Sunday
                       then log @ [\<lparr> date = Format startDay csvDateFormat,
                                      jobName = job fl,
                                      startTime = startHour,
                                      endTime = endHour \<rparr>]
                       else log)
            in buildLog_loop fl startHour endHour (AddDate startDay 0 0 1) endDay log)
      else log)"
  by pat_completeness auto
termination
proof (relation "measure (\<lambda>(fl, sh, eh, s, e, log). nat (unix e - unix s + 1))")
  show "wf (measure (\<lambda>(fl, sh, eh, s, e, log). nat (unix e - unix s + 1)))" by simp
next
  fix fl :: flags and startHour endHour :: string and startDay endDay :: Time
    and log x xa :: "daily list" and wd :: Weekday
  assume "\<not> After startDay endDay"
  then have "unix startDay \<le> unix endDay" by (auto simp: After_def)
  moreover have "unix startDay + 86400 \<le> unix (AddDate startDay 0 0 1)"
    using AddDate_day_later [of startDay] by (simp add: secondsPerDay_def)
  ultimately show "((fl, startHour, endHour, AddDate startDay 0 0 1, endDay, xa),
                    (fl, startHour, endHour, startDay, endDay, log))
                   \<in> measure (\<lambda>(fl, sh, eh, s, e, log). nat (unix e - unix s + 1))"
    by simp
qed

declare buildLog_loop.simps [simp del]

text \<open>The times at which the loop finds \<open>startDay\<close>: the start, and after each of them
  the time \<^verbatim>\<open>AddDate(0, 0, 1)\<close> makes of it, as long as the end is not passed.\<close>

function visited :: "Time \<Rightarrow> Time \<Rightarrow> Time list" where
  "visited startDay endDay =
     (if \<not> After startDay endDay
      then startDay # visited (AddDate startDay 0 0 1) endDay
      else [])"
  by pat_completeness auto
termination
proof (relation "measure (\<lambda>(s, e). nat (unix e - unix s + 1))")
  show "wf (measure (\<lambda>(s, e). nat (unix e - unix s + 1)))" by simp
next
  fix startDay endDay :: Time
  assume "\<not> After startDay endDay"
  then have "unix startDay \<le> unix endDay" by (auto simp: After_def)
  moreover have "unix startDay + 86400 \<le> unix (AddDate startDay 0 0 1)"
    using AddDate_day_later [of startDay] by (simp add: secondsPerDay_def)
  ultimately show "((AddDate startDay 0 0 1, endDay), (startDay, endDay))
                   \<in> measure (\<lambda>(s, e). nat (unix e - unix s + 1))"
    by simp
qed

declare visited.simps [simp del]

definition buildLog :: "flags \<Rightarrow> Location \<Rightarrow> Time \<Rightarrow> Time \<Rightarrow> error + daily list" where
  "buildLog fl local startDay endDay =
     (let log = [];
          startHour = Format (Date 0 0 0 8 0 0 0 local) csvTimeFormat;
          endHour = Format (Date 0 0 0 (sint (8 + hours fl)) 0 0 0 local) csvTimeFormat
      in Inr (buildLog_loop fl startHour endHour startDay endDay log))"

subsection \<open>main\<close>

text \<open>What a run leaves behind: the text on the diagnostic stream, the records if
  \<^verbatim>\<open>buildLog\<close> was reached, the file if it was created (with the sink as
  \<^verbatim>\<open>writeCSV\<close> left it, when that succeeded), and the error the run panicked with.\<close>

record outcome =
  stderr :: string
  records_built :: "daily list option"
  created :: "(string \<times> sink) option"
  panicked :: "error option"

definition main :: "flags \<Rightarrow> env \<Rightarrow> outcome" where
  "main fl e =
     (case parseFlags fl e of
        Inl err \<Rightarrow>
          \<lparr> stderr = [], records_built = None, created = None, panicked = Some err \<rparr>
      | Inr (startDay, endDay) \<Rightarrow>
          (let out = ''Start: '' @ Format startDay flagDateFormat @ ''\<newline>''
                     @ ''End:   '' @ Format endDay flagDateFormat @ ''\<newline>''
           in (case buildLog fl (Local e) startDay endDay of
                 Inl err \<Rightarrow>
                   \<lparr> stderr = out, records_built = None, created = None, panicked = Some err \<rparr>
               | Inr log \<Rightarrow>
                   (let filename = Format startDay flagDateFormat @ ''.''
                                   @ Format endDay flagDateFormat @ ''.csv''
                    in (case os_Create e filename of
                          Inl err \<Rightarrow>
                            \<lparr> stderr = out, records_built = Some log, created = None,
                               panicked = Some (Errorf ''could not create filename %q: %v''
                                                  [Str filename, Er err]) \<rparr>
                        | Inr f \<Rightarrow>
                            (case writeCSV fl f log of
                               Inl err \<Rightarrow>
                                 \<lparr> stderr = out, records_built = Some log,
                                    created = Some (filename, f), panicked = Some err \<rparr>
                             | Inr f' \<Rightarrow>
                                 \<lparr> stderr = out @ ''Wrote '' @ Itoa (int (length log))
                                             @ '' days to '' @ filename @ ''\<newline>'',
                                    records_built = Some log,
                                    created = Some (filename, f'), panicked = None \<rparr>))))))"

section \<open>Facts about the program\<close>

subsection \<open>buildLog and writeCSV\<close>

lemma abs_sec_Date_clock:
  "\<exists>D. abs_sec (Date 0 0 0 h 0 0 0 l) = D * 86400 + (h mod 24) * 3600"
proof -
  define D where "D = daysSinceEpoch (- 1) + daysBefore 11
    + (if isLeap (- 1) \<and> March \<le> 12 then 1 else 0) + (h div 24 - 1)"
  have "abs_sec (Date 0 0 0 h 0 0 0 l) = D * 86400 + (h mod 24) * 3600"
    unfolding Date_eq D_def
    by (simp add: abs_sec_def secondsPerDay_def Let_def isLeap_def algebra_simps)
  then show ?thesis ..
qed

lemma Hour_Date_clock: "Hour (Date 0 0 0 h 0 0 0 l) = h mod 24"
proof -
  obtain D where a: "abs_sec (Date 0 0 0 h 0 0 0 l) = D * 86400 + (h mod 24) * 3600"
    using abs_sec_Date_clock by blast
  have r: "0 \<le> h mod 24" "h mod 24 < 24" by simp_all
  have "(D * 86400 + (h mod 24) * 3600) mod 86400 = (h mod 24) * 3600"
    using r by (simp add: mod_pos_pos_trivial)
  then show ?thesis unfolding Hour_def a secondsPerDay_def by simp
qed

lemma Minute_Date_clock: "Minute (Date 0 0 0 h 0 0 0 l) = 0"
proof -
  obtain D where a: "abs_sec (Date 0 0 0 h 0 0 0 l) = D * 86400 + (h mod 24) * 3600"
    using abs_sec_Date_clock by blast
  have "D * 86400 + (h mod 24) * 3600 = (D * 24 + h mod 24) * 3600" by simp
  then have "(D * 86400 + (h mod 24) * 3600) mod 3600 = 0" by (metis mod_mult_self2_is_0)
  then show ?thesis unfolding Minute_def a by simp
qed

lemma appendInt_0_2: "appendInt 0 2 = ''00''"
  by (simp add: appendInt_def digits.simps digit_char_def)

lemma Format_Date_clock:
  "Format (Date 0 0 0 h 0 0 0 l) csvTimeFormat = clock12 (h mod 24)"
  by (simp add: Format_def csvTimeFormat_def Hour_Date_clock Minute_Date_clock
      appendInt_0_2 clock12_def Let_def)

lemma clock12_8: "clock12 8 = ''08:00 am''"
  by (simp add: clock12_def appendInt_def digits.simps digit_char_def)

lemma clock12_16: "clock12 16 = ''04:00 pm''"
  by (simp add: clock12_def appendInt_def digits.simps digit_char_def)


lemma buildLog_eq:
  "buildLog fl l s e =
     Inr (buildLog_loop fl ''08:00 am'' (clock12 (sint (8 + hours fl) mod 24)) s e [])"
  by (simp add: buildLog_def Format_Date_clock clock12_8)

lemma workday_Weekday:
  "workday n = (Weekday (midnight l n) \<noteq> Saturday \<and> Weekday (midnight l n) \<noteq> Sunday)"
proof -
  have "0 \<le> (n + 1) mod 7" "(n + 1) mod 7 < 7" by simp_all
  then show ?thesis
    unfolding workday_def Weekday_midnight Monday_def Saturday_def Sunday_def by linarith
qed

lemma buildLog_loop_midnight:
  "buildLog_loop fl sh eh (midnight l a) (midnight l b) log =
     log @ map (day_record fl l sh eh) (filter workday [a..b])"
proof (induction "nat (b + 1 - a)" arbitrary: a log)
  case 0
  then have "b < a" by simp
  then show ?case
    by (subst buildLog_loop.simps) (simp add: After_midnight)
next
  case (Suc k)
  then have le: "a \<le> b" and k: "k = nat (b + 1 - (a + 1))" by simp_all
  have up: "[a..b] = a # [a + 1..b]" using le by (simp add: upto_rec1)
  note IH = Suc.hyps(1) [OF k]
  show ?case
    apply (subst buildLog_loop.simps)
    using le
    apply (simp add: After_midnight AddDate_midnight IH up Let_def
        workday_Weekday [of a l, symmetric] day_record_def)
    done
qed

lemma workday_Mon_Fri: "workday n = (Weekday (midnight l n) \<in> {Monday..Friday})"
  by (simp add: workday_def Weekday_midnight Friday_def)

lemma length_filter_upto:
  "length (filter P [a..b]) = card {n. a \<le> n \<and> n \<le> b \<and> P n}"
proof -
  have "distinct (filter P [a..b])" by simp
  then have "card (set (filter P [a..b])) = length (filter P [a..b])"
    by (rule distinct_card)
  moreover have "set (filter P [a..b]) = {n. a \<le> n \<and> n \<le> b \<and> P n}" by auto
  ultimately show ?thesis by simp
qed

lemma buildLog_midnight:
  "buildLog fl l (midnight l a) (midnight l b) =
     Inr (map (day_record fl l ''08:00 am'' (clock12 (sint (8 + hours fl) mod 24)))
            (filter workday [a..b]))"
  by (simp add: buildLog_eq buildLog_loop_midnight)

lemma buildLog_loop_fields:
  assumes "\<forall>d \<in> set log. jobName d = job fl \<and> startTime d = sh \<and> endTime d = eh"
  shows "\<forall>d \<in> set (buildLog_loop fl sh eh s e log).
           jobName d = job fl \<and> startTime d = sh \<and> endTime d = eh"
  using assms
proof (induction fl sh eh s e log rule: buildLog_loop.induct)
  case (1 fl startHour endHour startDay endDay log)
  show ?case
  proof (cases "After startDay endDay")
    case True
    then show ?thesis using "1.prems" by (subst buildLog_loop.simps) simp
  next
    case False
    show ?thesis
      apply (subst buildLog_loop.simps)
      using False "1.prems"
      apply (simp add: Let_def)
      apply (intro conjI impI "1.IH")
      apply (auto simp: False)
      done
  qed
qed


lemma csv_WriteAll_eq:
  "csv_WriteAll w records = csv_Flush (w\<lparr> buf := buf w @ concat (map csv_line records) \<rparr>)"
  by (induction records arbitrary: w) (simp_all add: csv_Write_def)

lemma writeCSV_eq:
  "writeCSV fl f log =
     (if accepts f
      then Inr (f\<lparr> written := written f
                  @ csv_line [''Date'', ''Job Name'', ''From time'', ''To time'', ''Hours'']
                  @ concat (map (\<lambda>d. csv_line (toStringSlice fl d)) log) \<rparr>)
      else Inl (Errorf ''could not write records: %v'' [Er SinkError]))"
  by (simp add: writeCSV_def NewWriter_def csv_Write_def csv_WriteAll_eq csv_Flush_def
      Let_def comp_def)

subsection \<open>Parsing a date flag\<close>

lemma getnum_fixed:
  "getnum v True =
     (case v of
        a # b # r \<Rightarrow> if digit_chr a \<and> digit_chr b
                     then Some (digit_val a * 10 + digit_val b, r) else None
      | _ \<Rightarrow> None)"
  by (auto simp: getnum_def isDigit_def digit_chr_def split: list.splits)

lemma skip_hyphen:
  "skip v ''-'' = (case v of [] \<Rightarrow> None | c # r \<Rightarrow> if c = CHR ''-'' then Some r else None)"
  by (cases v) simp_all

lemma digit_chr_not_sign: "digit_chr c \<Longrightarrow> c \<noteq> CHR ''-'' \<and> c \<noteq> CHR ''+''"
  by (auto simp: digit_chr_def)

lemma atoi_four:
  "digit_chr a \<Longrightarrow> atoi [a, b, c, d] =
     (if digit_chr b \<and> digit_chr c \<and> digit_chr d
      then Some (((digit_val a * 10 + digit_val b) * 10 + digit_val c) * 10 + digit_val d)
      else None)"
  using digit_chr_not_sign [of a]
  by (auto simp: atoi_def digit_chr_def)

lemma year_chunk:
  "parse_chunk stdLongYear (y, m, d, v) =
     (case v of
        a # b # c # e # r \<Rightarrow>
          if digit_chr a \<and> digit_chr b \<and> digit_chr c \<and> digit_chr e
          then Some (((digit_val a * 10 + digit_val b) * 10 + digit_val c) * 10 + digit_val e,
                     m, d, r)
          else None
      | _ \<Rightarrow> None)"
proof (cases v)
  case Nil
  then show ?thesis by simp
next
  case (Cons a v1)
  show ?thesis
  proof (cases "digit_chr a")
    case False
    then show ?thesis using Cons
      by (auto simp: isDigit_def digit_chr_def split: list.splits)
  next
    case True
    then have i: "isDigit (a # v1) 0" by (simp add: isDigit_def digit_chr_def)
    show ?thesis unfolding Cons using True i
      by (auto simp: atoi_four split: list.splits)
  qed
qed

lemma month_chunk:
  "parse_chunk stdZeroMonth (y, m, d, v) =
     (case v of
        a # b # r \<Rightarrow>
          if digit_chr a \<and> digit_chr b \<and> 1 \<le> digit_val a * 10 + digit_val b
             \<and> digit_val a * 10 + digit_val b \<le> 12
          then Some (y, digit_val a * 10 + digit_val b, d, r) else None
      | _ \<Rightarrow> None)"
  by (auto simp: getnum_fixed split: list.splits)

lemma day_chunk:
  "parse_chunk stdZeroDay (y, m, d, v) =
     (case v of
        a # b # r \<Rightarrow>
          if digit_chr a \<and> digit_chr b then Some (y, m, digit_val a * 10 + digit_val b, r)
          else None
      | _ \<Rightarrow> None)"
  by (auto simp: getnum_fixed split: list.splits)

lemma hyphen_chunk:
  "parse_chunk (Lit ''-'') (y, m, d, v) =
     (case v of [] \<Rightarrow> None | c # r \<Rightarrow> if c = CHR ''-'' then Some (y, m, d, r) else None)"
  by (auto simp: skip_hyphen split: list.splits)

lemma parse_chunks_flagDateFormat:
  "parse_chunks flagDateFormat (0, - 1, - 1, s) =
     (case s of
        y1 # y2 # y3 # y4 # h1 # m1 # m2 # h2 # d1 # d2 # rest \<Rightarrow>
          if digit_chr y1 \<and> digit_chr y2 \<and> digit_chr y3 \<and> digit_chr y4 \<and> h1 = CHR ''-''
             \<and> digit_chr m1 \<and> digit_chr m2 \<and> h2 = CHR ''-'' \<and> digit_chr d1 \<and> digit_chr d2
             \<and> 1 \<le> digit_val m1 * 10 + digit_val m2 \<and> digit_val m1 * 10 + digit_val m2 \<le> 12
          then Some (((digit_val y1 * 10 + digit_val y2) * 10 + digit_val y3) * 10 + digit_val y4,
                     digit_val m1 * 10 + digit_val m2,
                     digit_val d1 * 10 + digit_val d2, rest)
          else None
      | _ \<Rightarrow> None)"
  unfolding flagDateFormat_def
  by (auto simp: year_chunk month_chunk day_chunk hyphen_chunk simp del: parse_chunk.simps
      split: list.splits)

lemma two_digits_nonneg:
  "digit_chr a \<Longrightarrow> digit_chr b \<Longrightarrow> (digit_val a * 10 + digit_val b < 0) = False"
  by (simp add: digit_chr_def digit_val_def)

lemma Parse_flagDateFormat:
  "Parse flagDateFormat s =
     (if valid_date s
      then (case date_fields s of (y, m, d) \<Rightarrow> Some (Date y m d 0 0 0 0 UTC))
      else None)"
  unfolding Parse_def parse_chunks_flagDateFormat valid_date_def date_shape_def date_fields_def
  by (auto simp: Let_def two_digits_nonneg split: list.splits)

subsection \<open>parseFlags and main\<close>

lemma layout_text_flagDateFormat: "layout_text flagDateFormat = ''2006-01-02''"
  by (simp add: layout_text_def flagDateFormat_def)

lemma Parse_flag_nsec:
  assumes "Parse flagDateFormat s = Some t"
  shows "nsec t = 0"
proof -
  obtain y m d where "t = Date y m d 0 0 0 0 UTC"
    using assms unfolding Parse_flagDateFormat
    by (cases "date_fields s") (auto split: if_splits)
  then show ?thesis by (simp add: Date_eq Let_def)
qed

lemma abs_sec_midnight: "abs_sec (midnight l n) = n * secondsPerDay"
  by (simp add: abs_sec_def midnight_def)

lemma absDate_same_day:
  assumes "a div secondsPerDay = b div secondsPerDay"
  shows "absDate a = absDate b"
proof -
  have "absYear a = absYear b" using assms by (simp only: absYear_def)
  then show ?thesis by (simp only: absDate_def)
qed

lemma absDate_midnight: "absDate (abs_sec (midnight l (dayNumber t))) = absDate (abs_sec t)"
  by (rule absDate_same_day) (simp add: abs_sec_midnight dayNumber_def secondsPerDay_def)

lemma midnight_fields:
  "loc (midnight l n) = l" "nsec (midnight l n) = 0"
  "Hour (midnight l n) = 0" "Minute (midnight l n) = 0" "Second (midnight l n) = 0"
  "Nanosecond (midnight l n) = 0"
proof -
  have "n * 86400 = (n * 24) * 3600" "n * 86400 = (n * 1440) * 60" by simp_all
  then have "(n * 86400) mod 3600 = 0" "(n * 86400) mod 60 = 0"
    by (metis mod_mult_self2_is_0)+
  then show "Hour (midnight l n) = 0" "Minute (midnight l n) = 0" "Second (midnight l n) = 0"
    by (simp_all add: Hour_def Minute_def Second_def abs_sec_midnight secondsPerDay_def)
qed (simp_all add: midnight_def Nanosecond_def)

lemma midnight_date:
  "Year (midnight l (dayNumber t)) = Year t"
  "Month (midnight l (dayNumber t)) = Month t"
  "Day (midnight l (dayNumber t)) = Day t"
  by (simp_all add: Year_def Month_def Day_def absDate_midnight)

lemma parseFlags_eq:
  "parseFlags fl e =
     (case resolveDates fl e of
        Inl err \<Rightarrow> Inl err
      | Inr (startDay, endDay) \<Rightarrow>
          if After startDay endDay
          then Inl (Errorf
            ''start day %s is after end day %s, that's probably not going to work for you''
            [Tm startDay, Tm endDay])
          else Inr (midnight (Local e) (dayNumber startDay),
                    midnight (Local e) (dayNumber endDay)))"
  by (simp add: parseFlags_def Date_midnight split: sum.splits prod.splits)

lemma main_parse_error:
  "parseFlags fl e = Inl err \<Longrightarrow>
     main fl e = \<lparr> stderr = [], records_built = None, created = None, panicked = Some err \<rparr>"
  by (simp add: main_def)

lemma main_builds:
  "parseFlags fl e = Inr (s, t) \<Longrightarrow>
     \<exists>log. buildLog fl (Local e) s t = Inr log \<and> records_built (main fl e) = Some log"
  by (auto simp: main_def buildLog_eq Let_def split: sum.splits)





subsection \<open>The records and the times the loop visits\<close>



lemma buildLog_after: "After s e \<Longrightarrow> buildLog fl l s e = Inr []"
  by (simp add: buildLog_eq buildLog_loop.simps [of _ _ _ s e])

section \<open>The resolved range\<close>

subsection \<open>The comparison of line 95\<close>

text \<open>
  \<^verbatim>\<open>parseFlags\<close> compares the two dates as resolved by lines 74 to 93, before it moves
  them to local midnight, and the comparison is one of instants. When the start instant is
  after the end instant it fails with the error made from both, and \<^verbatim>\<open>main\<close> panics
  with it at once: nothing has been printed, \<^verbatim>\<open>buildLog\<close> has not run and no file has
  been created.
\<close>

lemma parseFlags_start_instant_after_end:
  assumes "resolveDates fl e = Inr (startDay, endDay)" and "After startDay endDay"
  shows "parseFlags fl e = Inl (Errorf
           ''start day %s is after end day %s, that's probably not going to work for you''
           [Tm startDay, Tm endDay])
       \<and> main fl e = \<lparr> stderr = [], records_built = None, created = None,
                       panicked = Some (Errorf
           ''start day %s is after end day %s, that's probably not going to work for you''
           [Tm startDay, Tm endDay]) \<rparr>"
proof -
  have "parseFlags fl e = Inl (Errorf
           ''start day %s is after end day %s, that's probably not going to work for you''
           [Tm startDay, Tm endDay])"
    using assms by (simp add: parseFlags_eq)
  then show ?thesis using main_parse_error by blast
qed

text \<open>Both dates given, start 2024-03-10 and end 2024-03-01: both are midnights UTC, and
  the start is the later instant.\<close>

lemma parseFlags_both_given_inverted:
  "resolveDates (fl0\<lparr> start := ''2024-03-10'', end' := ''2024-03-01'' \<rparr>) env0
     = Inr (Date 2024 3 10 0 0 0 0 UTC, Date 2024 3 1 0 0 0 0 UTC)
   \<and> After (Date 2024 3 10 0 0 0 0 UTC) (Date 2024 3 1 0 0 0 0 UTC)
   \<and> created (main (fl0\<lparr> start := ''2024-03-10'', end' := ''2024-03-01'' \<rparr>) env0) = None
   \<and> records_built (main (fl0\<lparr> start := ''2024-03-10'', end' := ''2024-03-01'' \<rparr>) env0) = None
   \<and> panicked (main (fl0\<lparr> start := ''2024-03-10'', end' := ''2024-03-01'' \<rparr>) env0)
       = Some (Errorf
           ''start day %s is after end day %s, that's probably not going to work for you''
           [Tm (Date 2024 3 10 0 0 0 0 UTC), Tm (Date 2024 3 1 0 0 0 0 UTC)])"
proof -
  have r: "resolveDates (fl0\<lparr> start := ''2024-03-10'', end' := ''2024-03-01'' \<rparr>) env0
     = Inr (Date 2024 3 10 0 0 0 0 UTC, Date 2024 3 1 0 0 0 0 UTC)"
    by code_simp
  have a: "After (Date 2024 3 10 0 0 0 0 UTC) (Date 2024 3 1 0 0 0 0 UTC)"
    by code_simp
  from parseFlags_start_instant_after_end [OF r a]
  have "main (fl0\<lparr> start := ''2024-03-10'', end' := ''2024-03-01'' \<rparr>) env0
      = \<lparr> stderr = [], records_built = None, created = None,
                       panicked = Some (Errorf
           ''start day %s is after end day %s, that's probably not going to work for you''
           [Tm (Date 2024 3 10 0 0 0 0 UTC), Tm (Date 2024 3 1 0 0 0 0 UTC)]) \<rparr>"
    by blast
  then show ?thesis using r a by simp
qed

subsection \<open>Zones of fixed offset\<close>

text \<open>
  A location of the model is a fixed offset, so every calendar day has a midnight in it,
  and \<^verbatim>\<open>time.Date\<close> asked for the midnight of a day returns it. The two lemmas of this
  subsection rest on that and say nothing about a zone with transitions.

  When \<^verbatim>\<open>parseFlags\<close> does not fail it returns, for each of the two resolved dates,
  midnight in the local zone of the same calendar day: the year, month and day are kept,
  the time of day is zero, the location is \<^verbatim>\<open>time.Local\<close>. These two midnights are what
  \<^verbatim>\<open>main\<close> passes to \<^verbatim>\<open>buildLog\<close>.
\<close>

lemma parseFlags_fixed_offset_midnights:
  assumes "resolveDates fl e = Inr (startDay, endDay)" and "\<not> After startDay endDay"
  shows "\<exists>s t log. parseFlags fl e = Inr (s, t)
               \<and> s = Date (Year startDay) (Month startDay) (Day startDay) 0 0 0 0 (Local e)
               \<and> t = Date (Year endDay) (Month endDay) (Day endDay) 0 0 0 0 (Local e)
               \<and> s = midnight (Local e) (dayNumber startDay)
               \<and> t = midnight (Local e) (dayNumber endDay)
               \<and> loc s = Local e \<and> loc t = Local e
               \<and> Year s = Year startDay \<and> Month s = Month startDay \<and> Day s = Day startDay
               \<and> Year t = Year endDay \<and> Month t = Month endDay \<and> Day t = Day endDay
               \<and> Hour s = 0 \<and> Minute s = 0 \<and> Second s = 0 \<and> Nanosecond s = 0
               \<and> Hour t = 0 \<and> Minute t = 0 \<and> Second t = 0 \<and> Nanosecond t = 0
               \<and> buildLog fl (Local e) s t = Inr log
               \<and> records_built (main fl e) = Some log"
proof -
  have p: "parseFlags fl e = Inr (midnight (Local e) (dayNumber startDay),
                                   midnight (Local e) (dayNumber endDay))"
    using assms by (simp add: parseFlags_eq)
  from main_builds [OF p] obtain log where
    "buildLog fl (Local e) (midnight (Local e) (dayNumber startDay))
       (midnight (Local e) (dayNumber endDay)) = Inr log"
    "records_built (main fl e) = Some log" by blast
  then show ?thesis
    using p by (simp add: Date_midnight midnight_fields midnight_date)
qed

text \<open>With neither date given, at 20:00:00 on Saturday 2024-03-09 in a zone five hours
  west of UTC: the end is that time of day, the start the Monday before at the same time
  of day, and what is returned are the midnights of 2024-03-04 and 2024-03-09.\<close>

lemma parseFlags_neither_given:
  "resolveDates (fl0\<lparr> start := [], end' := [] \<rparr>) env0
     = Inr (Date 2024 3 4 20 0 0 5 (- 18000), Date 2024 3 9 20 0 0 5 (- 18000))
   \<and> \<not> After (Date 2024 3 4 20 0 0 5 (- 18000)) (Date 2024 3 9 20 0 0 5 (- 18000))
   \<and> parseFlags (fl0\<lparr> start := [], end' := [] \<rparr>) env0
       = Inr (Date 2024 3 4 0 0 0 0 (- 18000), Date 2024 3 9 0 0 0 0 (- 18000))"
  by code_simp

text \<open>From the midnight of a day \<open>a\<close> to the midnight of a day \<open>b\<close> in one zone, the loop
  of \<^verbatim>\<open>buildLog\<close> visits the midnights of the days from \<open>a\<close> to \<open>b\<close>.\<close>

lemma visited_midnight:
  "visited (midnight l a) (midnight l b) = map (midnight l) [a..b]"
proof (induction "nat (b + 1 - a)" arbitrary: a)
  case 0
  then have "b < a" by simp
  then show ?case
    by (subst visited.simps) (simp add: After_midnight)
next
  case (Suc k)
  then have le: "a \<le> b" and k: "k = nat (b + 1 - (a + 1))" by simp_all
  have up: "[a..b] = a # [a + 1..b]" using le by (simp add: upto_rec1)
  note IH = Suc.hyps(1) [OF k]
  show ?case
    apply (subst visited.simps)
    using le
    apply (simp add: After_midnight AddDate_midnight IH up)
    done
qed

text \<open>
  For two midnights of one zone, those of the days \<open>a\<close> and \<open>b\<close>, \<^verbatim>\<open>buildLog\<close> returns,
  in increasing order of the day, exactly one record for each day from \<open>a\<close> to \<open>b\<close>
  inclusive whose weekday is Monday to Friday, dated with that day; days falling on a
  Saturday or Sunday have no record, and the number of records is the number of such days.
  (When \<open>b < a\<close> there is no such day, and the list is empty.)
\<close>

lemma buildLog_fixed_offset_workdays:
  "\<exists>log. buildLog fl l (midnight l a) (midnight l b) = Inr log
      \<and> map date log =
          map (\<lambda>n. Format (midnight l n) csvDateFormat)
            (filter (\<lambda>n. Weekday (midnight l n) \<in> {Monday..Friday}) [a..b])
      \<and> length log = card {n. a \<le> n \<and> n \<le> b \<and> Weekday (midnight l n) \<in> {Monday..Friday}}"
proof -
  let ?log = "map (day_record fl l ''08:00 am'' (clock12 (sint (8 + hours fl) mod 24)))
                (filter workday [a..b])"
  have w: "workday = (\<lambda>n. Weekday (midnight l n) \<in> {Monday..Friday})"
    by (rule ext) (rule workday_Mon_Fri)
  have "buildLog fl l (midnight l a) (midnight l b) = Inr ?log"
    by (rule buildLog_midnight)
  moreover have "map date ?log = map (\<lambda>n. Format (midnight l n) csvDateFormat)
      (filter (\<lambda>n. Weekday (midnight l n) \<in> {Monday..Friday}) [a..b])"
    unfolding w by (simp add: day_record_def comp_def)
  moreover have "length ?log
      = card {n. a \<le> n \<and> n \<le> b \<and> Weekday (midnight l n) \<in> {Monday..Friday}}"
    unfolding w by (simp add: length_filter_upto)
  ultimately show ?thesis by blast
qed

text \<open>The week from Monday 2024-01-01 (day 738885) to Sunday 2024-01-07, five hours west
  of UTC: five records, Monday to Friday.\<close>

lemma buildLog_week_example:
  "parseFlags fl0 env0 = Inr (midnight (- 18000) 738885, midnight (- 18000) 738891)
   \<and> midnight (- 18000) 738885 = Date 2024 1 1 0 0 0 0 (- 18000)
   \<and> midnight (- 18000) 738891 = Date 2024 1 7 0 0 0 0 (- 18000)
   \<and> (\<exists>log. buildLog fl0 (- 18000) (midnight (- 18000) 738885) (midnight (- 18000) 738891)
               = Inr log
        \<and> map date log = [''01-Jan-2024'', ''02-Jan-2024'', ''03-Jan-2024'', ''04-Jan-2024'',
                           ''05-Jan-2024'']
        \<and> length log = 5)"
proof -
  have p: "parseFlags fl0 env0 = Inr (midnight (- 18000) 738885, midnight (- 18000) 738891)"
    by code_simp
  have d: "midnight (- 18000) 738885 = Date 2024 1 1 0 0 0 0 (- 18000)"
    "midnight (- 18000) 738891 = Date 2024 1 7 0 0 0 0 (- 18000)"
    by code_simp+
  have v: "map (\<lambda>n. Format (midnight (- 18000) n) csvDateFormat)
             (filter (\<lambda>n. Weekday (midnight (- 18000) n) \<in> {Monday..Friday}) [738885..738891])
           = [''01-Jan-2024'', ''02-Jan-2024'', ''03-Jan-2024'', ''04-Jan-2024'', ''05-Jan-2024'']"
    by code_simp
  obtain log where
    l: "buildLog fl0 (- 18000) (midnight (- 18000) 738885) (midnight (- 18000) 738891) = Inr log"
    and m: "map date log = map (\<lambda>n. Format (midnight (- 18000) n) csvDateFormat)
             (filter (\<lambda>n. Weekday (midnight (- 18000) n) \<in> {Monday..Friday}) [738885..738891])"
    using buildLog_fixed_offset_workdays [of fl0 "- 18000" 738885 738891] by blast
  have "length (map date log) = 5" unfolding m v by simp
  then have "length log = 5" by simp
  then show ?thesis using p d l m v by simp
qed
section \<open>The claims\<close>

subsection \<open>C1: one record per working day\<close>

text \<open>
  C1. The claim is that \<^verbatim>\<open>buildLog\<close> returns one record for every day of the resolved
  range, the end included, that falls on Monday to Friday. The code means to do that: its
  loop is commented \<^verbatim>\<open>Loop until startDay > endDay (include equal)\<close> (line 110) and skips
  Saturday and Sunday only. It does not always do it. The loop goes from one day to the
  next with \<^verbatim>\<open>AddDate(0, 0, 1)\<close>, which is \<^verbatim>\<open>time.Date\<close> in the location of the start,
  and the start is a midnight in \<^verbatim>\<open>time.Local\<close>. Where a daylight-saving change removes
  the hour after midnight, \<^verbatim>\<open>time.Date\<close> asked for that midnight answers 23:00 of the
  day before. From then on the loop runs at 23:00, and on the last day of the range its
  time is after the end, which is a midnight: the last day gets no record.

  With \<^verbatim>\<open>TZ=America/Sao_Paulo\<close>, \<^verbatim>\<open>--start 2018-11-01\<close> and \<^verbatim>\<open>--end 2018-11-07\<close> (the
  clocks went from 00:00 to 01:00 on Sunday 2018-11-04) the records are those of 1, 2, 5
  and 6 November. Wednesday 7 November is a working day of the range and has none.

  This is a defect of the code, and it needs a zone with a transition. The locations of
  this theory are fixed offsets, so the run above is outside the model; it is traced on
  the source of \<^verbatim>\<open>time.Date\<close>, and C1 is not stated as a theorem. What holds in every
  zone is that the records are those of the times the loop visits (lemma
  \<open>buildLog_visited\<close>); in a zone of fixed offset these are the midnights of the days of
  the range, and the code does what C1 says (lemmas \<open>visited_midnight\<close> and
  \<open>buildLog_fixed_offset_workdays\<close>).
\<close>

subsection \<open>C3: the same start and end time in every record\<close>

text \<open>
  C3. Every record that \<^verbatim>\<open>buildLog\<close> returns, for any two times, has the same start
  time, the base hour 8:00 in the 12-hour layout, which reads \<^verbatim>\<open>08:00 am\<close>, and the same
  end time, the hour 8 plus the configured hours in the same layout; with \<open>hours = 8\<close> the
  end time reads \<^verbatim>\<open>04:00 pm\<close>. The last column of the row written for a record is the
  configured number of hours in decimal.
\<close>

theorem buildLog_fixed_times:
  assumes "buildLog fl l s e = Inr log" and "d \<in> set log"
  shows "startTime d = Format (Date 0 0 0 8 0 0 0 l) csvTimeFormat
       \<and> startTime d = ''08:00 am''
       \<and> endTime d = Format (Date 0 0 0 (sint (8 + hours fl)) 0 0 0 l) csvTimeFormat
       \<and> (hours fl = 8 \<longrightarrow> endTime d = ''04:00 pm'')
       \<and> last (toStringSlice fl d) = Itoa (sint (hours fl))
       \<and> (hours fl = 8 \<longrightarrow> last (toStringSlice fl d) = ''8'')"
proof -
  let ?eh = "clock12 (sint (8 + hours fl) mod 24)"
  have "log = buildLog_loop fl ''08:00 am'' ?eh s e []"
    using assms(1) by (simp add: buildLog_eq)
  moreover have "\<forall>d \<in> set (buildLog_loop fl ''08:00 am'' ?eh s e []).
      jobName d = job fl \<and> startTime d = ''08:00 am'' \<and> endTime d = ?eh"
    by (rule buildLog_loop_fields) simp
  ultimately have f: "startTime d = ''08:00 am''" "endTime d = ?eh"
    using assms(2) by simp_all
  have eight: "hours fl = 8 \<Longrightarrow> ?eh = ''04:00 pm''"
    by (simp add: clock12_16)
  have itoa8: "Itoa 8 = ''8''"
    by (simp add: Itoa_def digits.simps digit_char_def)
  show ?thesis
    using f eight itoa8
    by (simp add: Format_Date_clock clock12_8 toStringSlice_def)
qed

theorem buildLog_fixed_times_witness:
  "\<exists>log d. buildLog fl0 0 (midnight 0 738885) (midnight 0 738891) = Inr log \<and> d \<in> set log
     \<and> startTime d = ''08:00 am'' \<and> endTime d = ''04:00 pm''
     \<and> last (toStringSlice fl0 d) = ''8''"
proof -
  let ?d = "day_record fl0 0 ''08:00 am'' (clock12 (sint (8 + hours fl0) mod 24)) 738885"
  let ?log = "map (day_record fl0 0 ''08:00 am'' (clock12 (sint (8 + hours fl0) mod 24)))
                (filter workday [738885..738891])"
  have l: "buildLog fl0 0 (midnight 0 738885) (midnight 0 738891) = Inr ?log"
    by (rule buildLog_midnight)
  have "workday 738885" by (simp add: workday_def Monday_def)
  then have m: "?d \<in> set ?log" by simp
  have h: "hours fl0 = 8" by (simp add: fl0_def)
  from buildLog_fixed_times [OF l m] h
  have "startTime ?d = ''08:00 am'' \<and> endTime ?d = ''04:00 pm''
        \<and> last (toStringSlice fl0 ?d) = ''8''" by blast
  with l m show ?thesis by blast
qed

subsection \<open>C7: no validation of the hours\<close>



subsection \<open>C10: buildLog never fails\<close>



subsection \<open>C9: the CSV output\<close>

text \<open>
  C9. On a sink that accepts writes, \<^verbatim>\<open>writeCSV\<close> appends the header line, whose
  columns are Date, Job Name, From time, To time and Hours, and then one line for each
  record, in the order of the list; the line of a record has the five fields date, job
  name, start time, end time and hours, separated by commas and ended by a newline. (A
  field is quoted, as \<^verbatim>\<open>encoding/csv\<close> does, when it holds a comma, a quote or a line
  break or starts with a space; only the job name can.)
\<close>

theorem writeCSV_header_then_rows:
  assumes "accepts f"
  shows "writeCSV fl f log =
           Inr (f\<lparr> written := written f
                  @ csv_line [''Date'', ''Job Name'', ''From time'', ''To time'', ''Hours'']
                  @ concat (map (\<lambda>d. csv_line (toStringSlice fl d)) log) \<rparr>)
       \<and> csv_line [''Date'', ''Job Name'', ''From time'', ''To time'', ''Hours'']
           = ''Date,Job Name,From time,To time,Hours\<newline>''
       \<and> (\<forall>d. csv_line (toStringSlice fl d) =
                csv_field (date d) @ '','' @ csv_field (jobName d) @ '','' @
                csv_field (startTime d) @ '','' @ csv_field (endTime d) @ '','' @
                csv_field (Itoa (sint (hours fl))) @ ''\<newline>'')"
proof -
  have "csv_line [''Date'', ''Job Name'', ''From time'', ''To time'', ''Hours'']
          = ''Date,Job Name,From time,To time,Hours\<newline>''"
    by (simp add: csv_line_def csv_field_def fieldNeedsQuotes_def firstRuneIsSpace_def)
  moreover have "\<And>d. csv_line (toStringSlice fl d) =
                csv_field (date d) @ '','' @ csv_field (jobName d) @ '','' @
                csv_field (startTime d) @ '','' @ csv_field (endTime d) @ '','' @
                csv_field (Itoa (sint (hours fl))) @ ''\<newline>''"
    by (simp add: csv_line_def toStringSlice_def)
  ultimately show ?thesis using assms by (simp add: writeCSV_eq)
qed

theorem writeCSV_header_then_rows_witness:
  "accepts \<lparr> written = [], accepts = True \<rparr>
   \<and> writeCSV fl0 \<lparr> written = [], accepts = True \<rparr>
        [\<lparr> date = ''01-Jan-2024'', jobName = ''Work Time'',
            startTime = ''08:00 am'', endTime = ''04:00 pm'' \<rparr>,
         \<lparr> date = ''02-Jan-2024'', jobName = ''Work, Time'',
            startTime = ''08:00 am'', endTime = ''04:00 pm'' \<rparr>]
       = Inr \<lparr> written = ''Date,Job Name,From time,To time,Hours\<newline>''
                 @ ''01-Jan-2024,Work Time,08:00 am,04:00 pm,8\<newline>''
                 @ [CHR ''0'', CHR ''2'', CHR ''-'', CHR ''J'', CHR ''a'', CHR ''n'', CHR ''-'',
                    CHR ''2'', CHR ''0'', CHR ''2'', CHR ''4'', CHR '','', CHR 0x22]
                 @ ''Work, Time'' @ [CHR 0x22] @ '',08:00 am,04:00 pm,8\<newline>'',
               accepts = True \<rparr>"
proof -
  have a: "accepts \<lparr> written = [], accepts = True \<rparr>" by simp
  have v: "concat (map (\<lambda>d. csv_line (toStringSlice fl0 d))
        [\<lparr> date = ''01-Jan-2024'', jobName = ''Work Time'',
            startTime = ''08:00 am'', endTime = ''04:00 pm'' \<rparr>,
         \<lparr> date = ''02-Jan-2024'', jobName = ''Work, Time'',
            startTime = ''08:00 am'', endTime = ''04:00 pm'' \<rparr>])
     = ''01-Jan-2024,Work Time,08:00 am,04:00 pm,8\<newline>''
                 @ [CHR ''0'', CHR ''2'', CHR ''-'', CHR ''J'', CHR ''a'', CHR ''n'', CHR ''-'',
                    CHR ''2'', CHR ''0'', CHR ''2'', CHR ''4'', CHR '','', CHR 0x22]
                 @ ''Work, Time'' @ [CHR 0x22] @ '',08:00 am,04:00 pm,8\<newline>''"
    by code_simp
  from writeCSV_header_then_rows [OF a, of fl0] have
    "writeCSV fl0 \<lparr> written = [], accepts = True \<rparr>
        [\<lparr> date = ''01-Jan-2024'', jobName = ''Work Time'',
            startTime = ''08:00 am'', endTime = ''04:00 pm'' \<rparr>,
         \<lparr> date = ''02-Jan-2024'', jobName = ''Work, Time'',
            startTime = ''08:00 am'', endTime = ''04:00 pm'' \<rparr>]
     = Inr (\<lparr> written = [], accepts = True \<rparr>\<lparr> written := written \<lparr> written = [], accepts = True \<rparr>
                  @ ''Date,Job Name,From time,To time,Hours\<newline>''
                  @ concat (map (\<lambda>d. csv_line (toStringSlice fl0 d))
        [\<lparr> date = ''01-Jan-2024'', jobName = ''Work Time'',
            startTime = ''08:00 am'', endTime = ''04:00 pm'' \<rparr>,
         \<lparr> date = ''02-Jan-2024'', jobName = ''Work, Time'',
            startTime = ''08:00 am'', endTime = ''04:00 pm'' \<rparr>]) \<rparr>)"
    by metis
  then show ?thesis unfolding v using a by simp
qed

subsection \<open>C8: determinism\<close>



subsection \<open>C6: both dates are moved to local midnight\<close>

text \<open>
  C6. The claim is that the two dates \<^verbatim>\<open>parseFlags\<close> returns are midnights, local time,
  of the days resolved. The code means to do that: lines 99 and 100 set \<^verbatim>\<open>midnightStart\<close>
  and \<^verbatim>\<open>midnightEnd\<close> to \<^verbatim>\<open>time.Date\<close> of the year, month and day at 0:00 in
  \<^verbatim>\<open>time.Local\<close>. It does not always do it. Where a daylight-saving change removes the
  hour after midnight that day has no midnight, and \<^verbatim>\<open>time.Date\<close> answers 23:00 of the
  day before.

  With \<^verbatim>\<open>TZ=America/Sao_Paulo\<close> and \<^verbatim>\<open>--start 2018-11-04 --end 2018-11-04\<close> both dates
  returned are 2018-11-03 23:00 (three hours west of UTC): the time of day is not zero,
  the calendar day is not the day resolved, and the file is named after 3 November.

  This is the defect of C1, met at another call of \<^verbatim>\<open>time.Date\<close>. As there, the run
  is outside the model and C6 is not stated as a theorem; in a zone of fixed offset the
  code does what C6 says (lemma \<open>parseFlags_fixed_offset_midnights\<close>). The comparison
  that guards the range comes before these two lines and is on the dates as resolved, not
  on the midnights (see C4).
\<close>

subsection \<open>C4: a start after the end\<close>

text \<open>
  C4. The claim is that a range whose start date is after its end date is refused, with
  an error that names both dates, before any record is built or any file created. The
  code means to do that: line 95 tests \<^verbatim>\<open>startDay.After(endDay)\<close> and its message reads
  \<^verbatim>\<open>start day ... is after end day ...\<close>. But the test is on instants, and it comes before
  the two dates are moved to local midnight. A start given by \<^verbatim>\<open>--start\<close> is midnight UTC
  of its day; an end left to default is the current time. West of UTC, in the evening,
  tomorrow's midnight UTC is already past: \<^verbatim>\<open>--start\<close> with tomorrow's date passes the
  test, and the range returned starts the day after it ends.

  The run below is at 20:00:00 on 2024-03-09, five hours west of UTC, with
  \<^verbatim>\<open>--start 2024-03-10\<close> and no \<^verbatim>\<open>--end\<close>. \<^verbatim>\<open>parseFlags\<close> returns the midnights of 10 March
  and of 9 March, in this order and with no error; \<^verbatim>\<open>main\<close> goes on, builds no record
  and creates the file \<^verbatim>\<open>2024-03-10.2024-03-09.csv\<close>, which holds the header line only.
  (When both dates are given both are midnights UTC, and the test is the one the claim
  describes: lemma \<open>parseFlags_start_instant_after_end\<close>.)
\<close>

theorem parseFlags_later_start_day_accepted:
  "resolveDates (fl0\<lparr> start := ''2024-03-10'', end' := [] \<rparr>) env0
     = Inr (Date 2024 3 10 0 0 0 0 UTC, Date 2024 3 9 20 0 0 5 (- 18000))
   \<and> \<not> After (Date 2024 3 10 0 0 0 0 UTC) (Date 2024 3 9 20 0 0 5 (- 18000))
   \<and> parseFlags (fl0\<lparr> start := ''2024-03-10'', end' := [] \<rparr>) env0
       = Inr (Date 2024 3 10 0 0 0 0 (- 18000), Date 2024 3 9 0 0 0 0 (- 18000))
   \<and> After (Date 2024 3 10 0 0 0 0 (- 18000)) (Date 2024 3 9 0 0 0 0 (- 18000))
   \<and> main (fl0\<lparr> start := ''2024-03-10'', end' := [] \<rparr>) env0
       = \<lparr> stderr = ''Start: 2024-03-10\<newline>End:   2024-03-09\<newline>''
                     @ ''Wrote 0 days to 2024-03-10.2024-03-09.csv\<newline>'',
           records_built = Some [],
           created = Some (''2024-03-10.2024-03-09.csv'',
                           \<lparr> written = ''Date,Job Name,From time,To time,Hours\<newline>'',
                              accepts = True \<rparr>),
           panicked = None \<rparr>"
proof -
  let ?fl = "fl0\<lparr> start := ''2024-03-10'', end' := [] \<rparr>"
  let ?s = "Date 2024 3 10 0 0 0 0 (- 18000)"
  let ?t = "Date 2024 3 9 0 0 0 0 (- 18000)"
  have r: "resolveDates ?fl env0
     = Inr (Date 2024 3 10 0 0 0 0 UTC, Date 2024 3 9 20 0 0 5 (- 18000))"
    by code_simp
  have n: "\<not> After (Date 2024 3 10 0 0 0 0 UTC) (Date 2024 3 9 20 0 0 5 (- 18000))"
    by code_simp
  have p: "parseFlags ?fl env0 = Inr (?s, ?t)"
    by code_simp
  have a: "After ?s ?t" by code_simp
  have f: "Format ?s flagDateFormat = ''2024-03-10''" "Format ?t flagDateFormat = ''2024-03-09''"
    by code_simp+
  have c: "os_Create env0 = (\<lambda>name. Inr \<lparr> written = [], accepts = True \<rparr>)"
    by (simp add: env0_def)
  have w: "writeCSV ?fl \<lparr> written = [], accepts = True \<rparr> []
      = Inr \<lparr> written = ''Date,Job Name,From time,To time,Hours\<newline>'', accepts = True \<rparr>"
    by code_simp
  have i: "Itoa 0 = ''0''" by code_simp
  have m: "main ?fl env0
       = \<lparr> stderr = ''Start: 2024-03-10\<newline>End:   2024-03-09\<newline>''
                     @ ''Wrote 0 days to 2024-03-10.2024-03-09.csv\<newline>'',
           records_built = Some [],
           created = Some (''2024-03-10.2024-03-09.csv'',
                           \<lparr> written = ''Date,Job Name,From time,To time,Hours\<newline>'',
                              accepts = True \<rparr>),
           panicked = None \<rparr>"
    by (simp add: main_def p Let_def buildLog_after [OF a] f c w i)
  show ?thesis using r n p a m by blast
qed

subsection \<open>C2: the default start\<close>



subsection \<open>C5: dates that do not parse\<close>

text \<open>
  C5, as amended. A flag left empty counts as not given and takes its default. A date flag
  that is not empty is accepted exactly when it is a valid date: a text of the shape of
  four digits, hyphen, two digits, hyphen, two digits whose month is 01 to 12 and whose
  day exists in that month of that year. When \<^verbatim>\<open>--end\<close> is not empty and is not a valid
  date, \<^verbatim>\<open>parseFlags\<close> fails with the error that names \<^verbatim>\<open>--end\<close>, the text given and
  the layout \<^verbatim>\<open>2006-01-02\<close>; when \<^verbatim>\<open>--end\<close> is empty or a valid date and \<^verbatim>\<open>--start\<close> is not
  empty and is not a valid date, it fails with the same error for \<^verbatim>\<open>--start\<close>. A text
  that is not of the shape is never valid. Every valid date parses, and with each flag
  empty or valid the two dates resolve without a format error.
\<close>

theorem parseFlags_format_error:
  "(end' fl \<noteq> [] \<and> \<not> valid_date (end' fl) \<longrightarrow>
      parseFlags fl e = Inl (Errorf ''invalid --end %q, expected format %q''
                              [Str (end' fl), Str ''2006-01-02'']))
   \<and> ((end' fl = [] \<or> valid_date (end' fl)) \<and> start fl \<noteq> [] \<and> \<not> valid_date (start fl) \<longrightarrow>
      parseFlags fl e = Inl (Errorf ''invalid --start %q, expected format %q''
                              [Str (start fl), Str ''2006-01-02'']))
   \<and> (\<not> date_shape s \<longrightarrow> \<not> valid_date s)
   \<and> (valid_date s \<longleftrightarrow> (\<exists>t. Parse flagDateFormat s = Some t))
   \<and> ((end' fl = [] \<or> valid_date (end' fl)) \<and> (start fl = [] \<or> valid_date (start fl)) \<longrightarrow>
        (\<exists>startDay endDay. resolveDates fl e = Inr (startDay, endDay)))"
proof -
  have P: "valid_date s \<longleftrightarrow> (\<exists>t. Parse flagDateFormat s = Some t)" for s
    by (cases "date_fields s") (simp add: Parse_flagDateFormat)
  have E: "\<not> valid_date []" by (simp add: valid_date_def date_shape_def)
  have 1: "parseFlags fl e = Inl (Errorf ''invalid --end %q, expected format %q''
                              [Str (end' fl), Str ''2006-01-02''])"
    if "end' fl \<noteq> []" "\<not> valid_date (end' fl)"
    using that
    by (simp add: parseFlags_def resolveDates_def Parse_flagDateFormat
        layout_text_flagDateFormat)
  have R: "\<exists>endDay. (if end' fl = [] then Inr (Now e)
            else (case Parse flagDateFormat (end' fl) of
                    None \<Rightarrow> Inl (Errorf ''invalid --end %q, expected format %q''
                                   [Str (end' fl), Str (layout_text flagDateFormat)])
                  | Some t \<Rightarrow> Inr t)) = Inr endDay"
    if h: "end' fl = [] \<or> valid_date (end' fl)"
  proof (cases "end' fl = []")
    case True
    then show ?thesis by simp
  next
    case False
    then have "valid_date (end' fl)" using h by simp
    then obtain t where "Parse flagDateFormat (end' fl) = Some t" using P by blast
    then show ?thesis using False by simp
  qed
  have 2: "parseFlags fl e = Inl (Errorf ''invalid --start %q, expected format %q''
                              [Str (start fl), Str ''2006-01-02''])"
    if "end' fl = [] \<or> valid_date (end' fl)" "start fl \<noteq> []" "\<not> valid_date (start fl)"
  proof -
    from R [OF that(1)] obtain endDay where r: "(if end' fl = [] then Inr (Now e)
            else (case Parse flagDateFormat (end' fl) of
                    None \<Rightarrow> Inl (Errorf ''invalid --end %q, expected format %q''
                                   [Str (end' fl), Str (layout_text flagDateFormat)])
                  | Some t \<Rightarrow> Inr t)) = Inr endDay" ..
    have n: "Parse flagDateFormat (start fl) = None"
      using that(3) by (simp add: Parse_flagDateFormat)
    show ?thesis
      unfolding parseFlags_def resolveDates_def r using that(2) n
      by (simp add: layout_text_flagDateFormat)
  qed
  have 3: "\<not> date_shape s \<longrightarrow> \<not> valid_date s" by (simp add: valid_date_def)
  have 4: "\<exists>startDay endDay. resolveDates fl e = Inr (startDay, endDay)"
    if h1: "end' fl = [] \<or> valid_date (end' fl)" and h2: "start fl = [] \<or> valid_date (start fl)"
  proof -
    from R [OF h1] obtain endDay where r: "(if end' fl = [] then Inr (Now e)
            else (case Parse flagDateFormat (end' fl) of
                    None \<Rightarrow> Inl (Errorf ''invalid --end %q, expected format %q''
                                   [Str (end' fl), Str (layout_text flagDateFormat)])
                  | Some t \<Rightarrow> Inr t)) = Inr endDay" ..
    show ?thesis
    proof (cases "start fl = []")
      case True
      then show ?thesis unfolding resolveDates_def r by (simp add: Let_def)
    next
      case False
      then have "valid_date (start fl)" using h2 by simp
      then obtain t where "Parse flagDateFormat (start fl) = Some t" using P by blast
      then show ?thesis unfolding resolveDates_def r using False by simp
    qed
  qed
  show ?thesis using 1 2 3 4 P [of s] by blast
qed

text \<open>The specification's scenario: a start written \<^verbatim>\<open>03/10/2024\<close>.\<close>

theorem parseFlags_format_error_witness:
  "valid_date (end' (fl0\<lparr> start := ''03/10/2024'' \<rparr>))
   \<and> start (fl0\<lparr> start := ''03/10/2024'' \<rparr>) \<noteq> []
   \<and> \<not> valid_date (start (fl0\<lparr> start := ''03/10/2024'' \<rparr>))
   \<and> parseFlags (fl0\<lparr> start := ''03/10/2024'' \<rparr>) env0
       = Inl (Errorf ''invalid --start %q, expected format %q''
                [Str ''03/10/2024'', Str ''2006-01-02''])"
proof -
  let ?fl = "fl0\<lparr> start := ''03/10/2024'' \<rparr>"
  have a: "valid_date (end' ?fl)" by code_simp
  have b: "start ?fl \<noteq> []" by simp
  have c: "\<not> valid_date (start ?fl)" by code_simp
  have d: "start ?fl = ''03/10/2024''" by simp
  from parseFlags_format_error [of ?fl env0 "[]"] a b c
  have "parseFlags ?fl env0 = Inl (Errorf ''invalid --start %q, expected format %q''
                              [Str (start ?fl), Str ''2006-01-02''])"
    by blast
  then show ?thesis using a b c unfolding d by blast
qed

text \<open>A text of the right shape that is not a date of the calendar: 30 February.\<close>

theorem parseFlags_shape_counterexample:
  "date_shape ''2024-02-30''
   \<and> parseFlags (fl0\<lparr> start := ''2024-02-30'' \<rparr>) env0
       = Inl (Errorf ''invalid --start %q, expected format %q''
                [Str ''2024-02-30'', Str ''2006-01-02''])"
  by code_simp

text \<open>An empty flag is taken as absent: with \<^verbatim>\<open>--start\<close> empty and the end Sunday
  2024-01-07 there is no error, and the start is the Monday before.\<close>

lemma parseFlags_empty_start:
  "\<not> valid_date []
   \<and> parseFlags (fl0\<lparr> start := [] \<rparr>) env0
       = Inr (Date 2024 1 1 0 0 0 0 (- 18000), Date 2024 1 7 0 0 0 0 (- 18000))"
  by code_simp
end
